theory Spec2Isabelle
  imports Complex_Main "HOL-Library.Multiset"
begin

section \<open>Subcluster scoring and selection (\<open>_3_select_tickets\<close>)\<close>

text \<open>
  The development embeds \<open>cluster_helper.py\<close>, \<open>generate_subclusters.py\<close> and the
  configuration constants of \<open>select_subclusters.py\<close>.

  Conventions of the embedding:
  \<^item> a numpy vector is a \<open>real list\<close>, a 2-D array is a list of rows; the floating-point
    numbers of the source are read as the real numbers they approximate. Rounding is
    outside the model, so nothing here fixes the digits of a computed float: a value
    that is \<open>1\<close> in exact arithmetic may come out of the source as
    \<open>1.0000000000000002\<close>;
  \<^item> a pandas data frame with a reset index is the list of its rows;
  \<^item> an exception of the source is the \<open>Inl\<close> branch of a sum type;
  \<^item> the third-party estimators (\<open>KMeans\<close>, \<open>silhouette_score\<close>, the sentence encoder
    followed by \<open>PCA\<close>) and numpy's \<open>argsort\<close> are parameters of the functions that
    call them.
\<close>

subsection \<open>Data\<close>

type_synonym vec = "real list"
type_synonym matrix = "vec list"

datatype error = ValueError | KeyError | IndexError | NotANumber

record ticket =
  issue_summary :: string
  resolution :: "string option"

text \<open>The dictionary built in the first pass of \<open>generate_subclusters\<close>.\<close>

record subcluster =
  sub_id :: nat
  df :: "ticket list"
  embeddings :: matrix

text \<open>
  The dictionary appended to \<open>global_subcluster_stats\<close>. The keys \<open>normalized_size\<close> and
  \<open>score\<close> are absent until \<open>compute_ranked_scores\<close> stores them, hence optional.
\<close>

record stats =
  cluster :: int
  subcluster_id :: nat
  summaries :: "string list"
  resolutions :: "string list"
  size_s :: nat
  cohesion :: real
  separation :: real
  stat_embeddings :: matrix
  normalized_size :: "real option"
  score :: "real option"

subsection \<open>Linear algebra of \<open>sklearn\<close>\<close>

definition dot :: "vec \<Rightarrow> vec \<Rightarrow> real" where
  "dot u v = sum_list (map (\<lambda>(a, b). a * b) (zip u v))"

definition row_norm :: "vec \<Rightarrow> real" where
  "row_norm v = sqrt (dot v v)"

text \<open>
  \<open>sklearn.preprocessing.normalize\<close> divides every row by its Euclidean norm; a norm of
  zero is replaced by one, so a zero row stays zero. An array without rows is rejected
  with \<open>ValueError\<close>; the callers below check for it before they normalise. (The
  name carries the suffix of the default norm, \<open>l2\<close>, to keep it apart from the
  library's \<open>normalize\<close>.)
\<close>

definition normalize_row :: "vec \<Rightarrow> vec" where
  "normalize_row v = (let n = row_norm v in map (\<lambda>x. x / (if n = 0 then 1 else n)) v)"

definition normalize_l2 :: "matrix \<Rightarrow> matrix" where
  "normalize_l2 X = map normalize_row X"

text \<open>
  \<open>sklearn.metrics.pairwise.cosine_similarity\<close> normalises both arguments itself and
  returns the matrix of dot products; with one argument the second is the first.
\<close>

definition cosine_similarity :: "matrix \<Rightarrow> matrix \<Rightarrow> matrix" where
  "cosine_similarity X Y =
     (let Xn = normalize_l2 X; Yn = normalize_l2 Y in map (\<lambda>x. map (\<lambda>y. dot x y) Yn) Xn)"

definition np_sum :: "matrix \<Rightarrow> real" where
  "np_sum M = sum_list (map sum_list M)"

definition np_trace :: "matrix \<Rightarrow> real" where
  "np_trace M = sum_list (map (\<lambda>i. (M ! i) ! i) [0..<length M])"

definition np_mean :: "real list \<Rightarrow> real" where
  "np_mean xs = sum_list xs / real (length xs)"

subsection \<open>Ranking the members of a subcluster by their centroid\<close>

text \<open>
  \<open>ndarray.argsort()\<close> is numpy's: it returns indices that sort the array in ascending
  order, and with the default kind it promises no order among equal keys. It is a
  parameter \<open>argsort\<close> of the functions that call it, and \<open>argsort_contract\<close> is what
  numpy documents of it on one array: a permutation of the indices along which the
  values ascend.
\<close>

type_synonym argsort_fn = "real list \<Rightarrow> nat list"

definition argsort_contract :: "argsort_fn \<Rightarrow> real list \<Rightarrow> bool" where
  "argsort_contract argsort xs =
     (mset (argsort xs) = mset [0..<length xs] \<and> sorted (map (\<lambda>i. xs ! i) (argsort xs)))"

text \<open>\<open>similarities.argsort()[::-1]\<close>\<close>

definition top_indices :: "argsort_fn \<Rightarrow> real list \<Rightarrow> nat list" where
  "top_indices argsort similarities = rev (argsort similarities)"

fun dropna :: "'a option list \<Rightarrow> 'a list" where
  "dropna [] = []"
| "dropna (None # xs) = dropna xs"
| "dropna (Some x # xs) = x # dropna xs"

definition centroid_similarities :: "matrix \<Rightarrow> vec \<Rightarrow> real list" where
  "centroid_similarities embs centroid =
     concat (cosine_similarity (normalize_l2 embs) (normalize_l2 [centroid]))"

text \<open>
  \<open>df.loc[top_indices, ...]\<close> looks the indices up as labels of the reset index and
  raises \<open>KeyError\<close> for a label the frame does not have.
\<close>

definition get_top_entries_by_centroid ::
  "argsort_fn \<Rightarrow> matrix \<Rightarrow> vec \<Rightarrow> ticket list \<Rightarrow> error + (string list \<times> string list)" where
  "get_top_entries_by_centroid argsort embs centroid frame =
     (if embs = [] then Inl ValueError
      else
        let similarities = centroid_similarities embs centroid;
            idx = top_indices argsort similarities
        in if length frame < length embs then Inl KeyError
           else Inr (map (\<lambda>i. issue_summary (frame ! i)) idx,
                     dropna (map (\<lambda>i. resolution (frame ! i)) idx)))"

subsection \<open>Cohesion and separation\<close>

text \<open>
  \<open>compute_cohesion\<close>: mean cosine similarity over the ordered pairs of distinct
  members, in exact arithmetic. (The float64 value of the source differs from it by the
  rounding of the norms, quotients and sums.) For a single member the source divides \<open>0.0\<close> by \<open>0\<close> and numpy returns
  \<open>nan\<close>, which is no real number: the model reports it as \<open>NotANumber\<close>.
\<close>

definition compute_cohesion :: "matrix \<Rightarrow> error + real" where
  "compute_cohesion embs =
     (if embs = [] then Inl ValueError
      else
        let E = normalize_l2 embs;
            n_samples = length E;
            sim_matrix = cosine_similarity E E;
            total_sim = np_sum sim_matrix;
            diagonal = np_trace sim_matrix
        in if n_samples * (n_samples - 1) = 0 then Inl NotANumber
           else Inr ((total_sim - diagonal) / real (n_samples * (n_samples - 1))))"

definition compute_separation :: "matrix \<Rightarrow> matrix \<Rightarrow> error + real" where
  "compute_separation embeddings_a embeddings_b =
     (if embeddings_a = [] \<or> embeddings_b = [] then Inl ValueError
      else
        let A = normalize_l2 embeddings_a;
            B = normalize_l2 embeddings_b;
            sim_matrix = cosine_similarity A B;
            total_sim = np_sum sim_matrix;
            n_comparisons = length A * length B
        in Inr (1 - total_sim / real n_comparisons))"

subsection \<open>Global scoring\<close>

text \<open>
  \<open>MinMaxScaler().fit_transform\<close> on one column: \<open>scale_ = 1 / range\<close> with a range of
  zero replaced by one, \<open>min_ = 0 - data_min * scale_\<close>, and the result
  \<open>x * scale_ + min_\<close>. (The library replaces a range below ten machine epsilons; the
  sizes are whole numbers, so that is a range of zero.) Fitting an empty column raises
  \<open>ValueError\<close>, which \<open>compute_ranked_scores\<close> checks first.
\<close>

definition minmax_fit_transform :: "real list \<Rightarrow> real list" where
  "minmax_fit_transform xs =
     (let data_min = Min (set xs);
          data_max = Max (set xs);
          data_range = data_max - data_min;
          scale = 1 / (if data_range = 0 then 1 else data_range);
          min_shift = 0 - data_min * scale
      in map (\<lambda>x. x * scale + min_shift) xs)"

definition compute_ranked_scores ::
  "stats list \<Rightarrow> real \<Rightarrow> real \<Rightarrow> real \<Rightarrow> error + stats list" where
  "compute_ranked_scores subclusters size_weight cohesion_weight separation_weight =
     (if subclusters = [] then Inl ValueError
      else
        let sizes = map (\<lambda>s. real (size_s s)) subclusters;
            cohesions = map cohesion subclusters;
            separations = map separation subclusters;
            normalized_sizes = minmax_fit_transform sizes
        in Inr (map (\<lambda>(i, s).
                  s\<lparr>normalized_size := Some (normalized_sizes ! i),
                    score := Some (size_weight * normalized_sizes ! i +
                                   cohesion_weight * cohesions ! i +
                                   separation_weight * separations ! i)\<rparr>)
                (enumerate 0 subclusters)))"

subsection \<open>Global selection\<close>

definition MIN_SIZE :: real where "MIN_SIZE = 5 / 100"
definition MAX_SIZE :: real where "MAX_SIZE = 80 / 100"
definition EPSILON :: real where "EPSILON = 1 / 1000"
definition NUM_FAQs :: nat where "NUM_FAQs = 20"

text \<open>\<open>s.get("normalized_size", 0)\<close>\<close>

definition get_normalized_size :: "stats \<Rightarrow> real" where
  "get_normalized_size s = (case normalized_size s of None \<Rightarrow> 0 | Some v \<Rightarrow> v)"

text \<open>The list comprehension \<open>filtered\<close> of \<open>select_top_subclusters\<close>.\<close>

definition size_filter :: "stats list \<Rightarrow> stats list" where
  "size_filter updated_subclusters =
     filter (\<lambda>s. get_normalized_size s > MIN_SIZE + EPSILON \<and>
                 get_normalized_size s < MAX_SIZE - EPSILON) updated_subclusters"

text \<open>
  \<open>sorted(xs, key=..., reverse=True)\<close>: Python reverses the list, sorts it with its
  stable sort and reverses the result, which keeps equal keys in their original order.
\<close>

definition sorted_reverse :: "('a \<Rightarrow> real) \<Rightarrow> 'a list \<Rightarrow> 'a list" where
  "sorted_reverse key xs = rev (sort_key key (rev xs))"

text \<open>\<open>x["score"]\<close> raises \<open>KeyError\<close> on a record without the key.\<close>

definition select_top_subclusters :: "stats list \<Rightarrow> error + stats list" where
  "select_top_subclusters global_subcluster_stats =
     (case compute_ranked_scores global_subcluster_stats (4 / 10) (12 / 10) (2 / 10) of
        Inl e \<Rightarrow> Inl e
      | Inr updated_subclusters \<Rightarrow>
          let filtered = size_filter updated_subclusters
          in if list_ex (\<lambda>s. score s = None) filtered then Inl KeyError
             else Inr (take NUM_FAQs (sorted_reverse (\<lambda>x. the (score x)) filtered)))"

subsection \<open>Choosing the number of subclusters\<close>

text \<open>
  \<open>KMeans(n_clusters=k, random_state=42, n_init=50)\<close> fitted on \<open>X\<close> is the parameter
  \<open>kmeans X k\<close>, returning \<open>(labels_, cluster_centers_)\<close>; \<open>silhouette_score\<close> is the
  parameter \<open>silhouette\<close>. \<open>np.unique(labels, return_counts=True)\<close> lists the labels
  that occur, in ascending order, with the number of occurrences of each.
\<close>

type_synonym kmeans_fit = "matrix \<Rightarrow> nat \<Rightarrow> nat list \<times> matrix"

definition label_counts :: "nat list \<Rightarrow> nat list" where
  "label_counts labels = map (count_list labels) (sort (remdups labels))"

text \<open>
  The test \<open>np.any(counts < 5) or max_prop > 0.85\<close>. The quotient of a positive numpy
  integer by \<open>0\<close> is \<open>inf\<close>, which exceeds the bound.
\<close>

definition rejected :: "nat list \<Rightarrow> nat \<Rightarrow> bool" where
  "rejected counts n_total =
     (list_ex (\<lambda>c. c < 5) counts \<or>
      (if n_total = 0 then True else real (Max (set counts)) / real n_total > 85 / 100))"

text \<open>The loop over the candidates; \<open>counts.max()\<close> raises on an empty array.\<close>

fun candidate_scores ::
  "kmeans_fit \<Rightarrow> (matrix \<Rightarrow> nat list \<Rightarrow> real) \<Rightarrow> matrix \<Rightarrow> nat \<Rightarrow> nat list
     \<Rightarrow> error + (nat \<times> real) list" where
  "candidate_scores kmeans silhouette X n_total [] = Inr []"
| "candidate_scores kmeans silhouette X n_total (k # ks) =
     (let labels = fst (kmeans X k) in
      if labels = [] then Inl ValueError
      else
        case candidate_scores kmeans silhouette X n_total ks of
          Inl e \<Rightarrow> Inl e
        | Inr rest \<Rightarrow>
            if rejected (label_counts labels) n_total then Inr rest
            else Inr ((k, silhouette X labels) # rest))"

definition compute_best_k ::
  "kmeans_fit \<Rightarrow> (matrix \<Rightarrow> nat list \<Rightarrow> real) \<Rightarrow> matrix \<Rightarrow> nat \<Rightarrow> error + nat" where
  "compute_best_k kmeans silhouette X n_total =
     (case candidate_scores kmeans silhouette X n_total [2, 3, 4] of
        Inl e \<Rightarrow> Inl e
      | Inr cs \<Rightarrow>
          if cs \<noteq> [] then Inr (fst (hd (sort_key (\<lambda>x. - snd x) cs))) else Inr 1)"

definition subcluster_embeddings_kmeans :: "kmeans_fit \<Rightarrow> matrix \<Rightarrow> nat \<Rightarrow> nat list \<times> matrix" where
  "subcluster_embeddings_kmeans kmeans embs k = kmeans embs k"

subsection \<open>Generating the subcluster records\<close>

text \<open>Indexing with the boolean mask \<open>labels == sub_id\<close>.\<close>

definition mask_select :: "nat list \<Rightarrow> nat \<Rightarrow> 'a list \<Rightarrow> 'a list" where
  "mask_select labels sid xs = map snd (filter (\<lambda>(l, x). l = sid) (zip labels xs))"

text \<open>The first pass over \<open>range(k)\<close>: the frame and the vectors of each subcluster.\<close>

definition first_pass :: "nat list \<Rightarrow> ticket list \<Rightarrow> matrix \<Rightarrow> nat \<Rightarrow> subcluster list" where
  "first_pass labels cluster_df embs k =
     map (\<lambda>sid. \<lparr>sub_id = sid, df = mask_select labels sid cluster_df,
                  embeddings = mask_select labels sid embs\<rparr>) [0..<k]"

text \<open>Results collected in order; the first exception ends the run.\<close>

fun sequence_err :: "(error + 'a) list \<Rightarrow> error + 'a list" where
  "sequence_err [] = Inr []"
| "sequence_err (r # rs) =
     (case r of
        Inl e \<Rightarrow> Inl e
      | Inr x \<Rightarrow> (case sequence_err rs of Inl e \<Rightarrow> Inl e | Inr xs \<Rightarrow> Inr (x # xs)))"

text \<open>The list \<open>separations\<close> of one subcluster: one score for each other subcluster.\<close>

definition sibling_separations :: "subcluster list \<Rightarrow> subcluster \<Rightarrow> error + real list" where
  "sibling_separations subclusters sc =
     sequence_err (map (\<lambda>other. compute_separation (embeddings sc) (embeddings other))
                       (filter (\<lambda>other. sub_id other \<noteq> sub_id sc) subclusters))"

text \<open>
  The body of the second pass for one subcluster. The ranked lists \<open>top_summaries\<close> and
  \<open>top_resolutions\<close> are computed and then not used: the record stores the texts in
  the order of the data frame.
\<close>

definition subcluster_stats ::
  "argsort_fn \<Rightarrow> int \<Rightarrow> matrix \<Rightarrow> subcluster list \<Rightarrow> subcluster \<Rightarrow> error + stats" where
  "subcluster_stats argsort cluster_id centroids subclusters sc =
     (let sub_df = df sc;
          embeddings_a = embeddings sc;
          size = length sub_df
      in case compute_cohesion embeddings_a of
           Inl e \<Rightarrow> Inl e
         | Inr coh \<Rightarrow>
            (case sibling_separations subclusters sc of
               Inl e \<Rightarrow> Inl e
             | Inr separations \<Rightarrow>
                let sep = (if separations \<noteq> [] then np_mean separations else 0)
                in if length centroids \<le> sub_id sc then Inl IndexError
                   else
                     (case get_top_entries_by_centroid argsort embeddings_a (centroids ! sub_id sc) sub_df of
                        Inl e \<Rightarrow> Inl e
                      | Inr (top_summaries, top_resolutions) \<Rightarrow>
                          Inr \<lparr>cluster = cluster_id,
                               subcluster_id = sub_id sc,
                               summaries = map issue_summary sub_df,
                               resolutions = dropna (map resolution sub_df),
                               size_s = size,
                               cohesion = coh,
                               separation = sep,
                               stat_embeddings = embeddings_a,
                               normalized_size = None,
                               score = None\<rparr>)))"

text \<open>
  One iteration of the loop over the parent clusters. \<open>encode\<close> is \<open>model.encode\<close>
  followed by the PCA reduction. A mask whose length differs from the frame's or the
  array's is an error of pandas or numpy.
\<close>

definition parent_cluster_stats ::
  "argsort_fn \<Rightarrow> (string list \<Rightarrow> matrix) \<Rightarrow> kmeans_fit \<Rightarrow> (matrix \<Rightarrow> nat list \<Rightarrow> real)
     \<Rightarrow> int \<times> ticket list \<Rightarrow> error + stats list" where
  "parent_cluster_stats argsort encode kmeans silhouette g =
     (let cluster_id = fst g;
          cluster_df = snd g;
          summaries_all = map issue_summary cluster_df;
          embs = encode summaries_all
      in case compute_best_k kmeans silhouette embs (length cluster_df) of
           Inl e \<Rightarrow> Inl e
         | Inr k \<Rightarrow>
             if k = 1 then Inr []
             else
               let labels = fst (subcluster_embeddings_kmeans kmeans embs k);
                   centroids = snd (subcluster_embeddings_kmeans kmeans embs k)
               in if length labels \<noteq> length cluster_df then Inl ValueError
                  else if length labels \<noteq> length embs then Inl IndexError
                  else
                    let subclusters = first_pass labels cluster_df embs k
                    in sequence_err (map (subcluster_stats argsort cluster_id centroids subclusters)
                                         subclusters))"

text \<open>
  The loop over the parent clusters. Reading the summaries and the cluster table and
  merging them is input: the function takes the parent clusters in the order of
  \<open>cluster_counts.items()\<close>, each with its identifier and its frame \<open>cluster_df\<close>, and
  returns \<open>global_subcluster_stats\<close>.
\<close>

fun generate_subclusters ::
  "argsort_fn \<Rightarrow> (string list \<Rightarrow> matrix) \<Rightarrow> kmeans_fit \<Rightarrow> (matrix \<Rightarrow> nat list \<Rightarrow> real)
     \<Rightarrow> (int \<times> ticket list) list \<Rightarrow> error + stats list" where
  "generate_subclusters argsort encode kmeans silhouette [] = Inr []"
| "generate_subclusters argsort encode kmeans silhouette (g # gs) =
     (case parent_cluster_stats argsort encode kmeans silhouette g of
        Inl e \<Rightarrow> Inl e
      | Inr recs \<Rightarrow>
          (case generate_subclusters argsort encode kmeans silhouette gs of
             Inl e \<Rightarrow> Inl e
           | Inr rest \<Rightarrow> Inr (recs @ rest)))"

subsection \<open>Reference notions and example inputs\<close>

text \<open>
  Min-max normalisation as the specification words it: \<open>(x - min) / (max - min)\<close> over
  the whole column; where the column is constant the quotient has no meaning and the
  value is \<open>0\<close>.
\<close>

definition min_max_normalization :: "real list \<Rightarrow> real \<Rightarrow> real" where
  "min_max_normalization xs x =
     (if Max (set xs) = Min (set xs) then 0
      else (x - Min (set xs)) / (Max (set xs) - Min (set xs)))"

definition sizes_of :: "stats list \<Rightarrow> real list" where
  "sizes_of acc = map (\<lambda>s. real (size_s s)) acc"

text \<open>Records for the worked examples: only size, cohesion and separation vary.\<close>

definition example_stats :: "nat \<Rightarrow> real \<Rightarrow> real \<Rightarrow> stats" where
  "example_stats n c s =
     \<lparr>cluster = 0, subcluster_id = 0, summaries = [], resolutions = [], size_s = n,
      cohesion = c, separation = s, stat_embeddings = [], normalized_size = None,
      score = None\<rparr>"

definition example_scored :: "nat \<Rightarrow> real \<Rightarrow> real \<Rightarrow> real \<Rightarrow> real \<Rightarrow> stats" where
  "example_scored n c s ns sc =
     (example_stats n c s)\<lparr>normalized_size := Some ns, score := Some sc\<rparr>"

definition example_accumulator :: "stats list" where
  "example_accumulator =
     [example_stats 5 (1 / 2) (1 / 2), example_stats 10 (1 / 2) 0,
      example_stats 10 (1 / 2) (1 / 2), example_stats 10 (5 / 12) (1 / 2),
      example_stats 25 1 1]"

definition example_updated :: "stats list" where
  "example_updated =
     [example_scored 5 (1 / 2) (1 / 2) 0 (7 / 10),
      example_scored 10 (1 / 2) 0 (1 / 4) (7 / 10),
      example_scored 10 (1 / 2) (1 / 2) (1 / 4) (8 / 10),
      example_scored 10 (5 / 12) (1 / 2) (1 / 4) (7 / 10),
      example_scored 25 1 1 1 (18 / 10)]"

text \<open>
  The two bounds on a partition as the specification words them: some label class has
  fewer than five members, or some label class holds more than 85 percent of \<open>n\<close>.
\<close>

definition violates_bounds :: "nat list \<Rightarrow> nat \<Rightarrow> bool" where
  "violates_bounds labels n =
     ((\<exists>l\<in>set labels. count_list labels l < 5) \<or>
      (\<exists>l\<in>set labels. real (count_list labels l) > 85 / 100 * real n))"

text \<open>
  A parent cluster of ten tickets in two groups of five, with a fit for each \<open>k\<close>: two
  classes of five for \<open>k = 2\<close> (the centroids are the class means), and classes of a
  single member for \<open>k = 3\<close> and \<open>k = 4\<close>.
\<close>

definition example_tickets :: "ticket list" where
  "example_tickets =
     [\<lparr>issue_summary = ''a0'', resolution = Some ''r0''\<rparr>,
      \<lparr>issue_summary = ''a1'', resolution = None\<rparr>,
      \<lparr>issue_summary = ''a2'', resolution = Some ''r2''\<rparr>,
      \<lparr>issue_summary = ''a3'', resolution = Some ''r3''\<rparr>,
      \<lparr>issue_summary = ''a4'', resolution = Some ''r4''\<rparr>,
      \<lparr>issue_summary = ''b0'', resolution = Some ''s0''\<rparr>,
      \<lparr>issue_summary = ''b1'', resolution = Some ''s1''\<rparr>,
      \<lparr>issue_summary = ''b2'', resolution = None\<rparr>,
      \<lparr>issue_summary = ''b3'', resolution = Some ''s3''\<rparr>,
      \<lparr>issue_summary = ''b4'', resolution = Some ''s4''\<rparr>]"

definition example_embeddings :: matrix where
  "example_embeddings =
     [[3, 0], [0, 1], [0, 1], [0, 1], [0, 1],
      [0, -2], [0, -2], [0, -2], [0, -2], [0, -2]]"

definition example_kmeans :: kmeans_fit where
  "example_kmeans X k =
     (if k = 2 then ([0, 0, 0, 0, 0, 1, 1, 1, 1, 1], [[3 / 5, 4 / 5], [0, -2]])
      else if k = 3 then ([2, 0, 0, 0, 0, 1, 1, 1, 1, 1], [[0, 1], [0, -2], [3, 0]])
      else ([2, 0, 0, 0, 3, 1, 1, 1, 1, 1], [[0, 1], [0, -2], [3, 0], [0, 1]]))"

definition example_silhouette :: "matrix \<Rightarrow> nat list \<Rightarrow> real" where
  "example_silhouette X labels = 1 / 2"

definition example_encode :: "string list \<Rightarrow> matrix" where
  "example_encode texts = example_embeddings"

definition example_subcluster_a :: subcluster where
  "example_subcluster_a =
     \<lparr>sub_id = 0, df = take 5 example_tickets, embeddings = take 5 example_embeddings\<rparr>"

definition example_subcluster_b :: subcluster where
  "example_subcluster_b =
     \<lparr>sub_id = 1, df = drop 5 example_tickets, embeddings = drop 5 example_embeddings\<rparr>"

definition example_record_a :: stats where
  "example_record_a =
     \<lparr>cluster = 7, subcluster_id = 0,
      summaries = [''a0'', ''a1'', ''a2'', ''a3'', ''a4''],
      resolutions = [''r0'', ''r2'', ''r3'', ''r4''],
      size_s = 5, cohesion = 3 / 5, separation = 9 / 5,
      stat_embeddings = take 5 example_embeddings, normalized_size = None, score = None\<rparr>"

definition example_record_b :: stats where
  "example_record_b =
     \<lparr>cluster = 7, subcluster_id = 1,
      summaries = [''b0'', ''b1'', ''b2'', ''b3'', ''b4''],
      resolutions = [''s0'', ''s1'', ''s3'', ''s4''],
      size_s = 5, cohesion = 1, separation = 9 / 5,
      stat_embeddings = drop 5 example_embeddings, normalized_size = None, score = None\<rparr>"

text \<open>
  The alternative that C7 rules out: one mean over all cross pairs of a subcluster with
  all its siblings together.
\<close>

definition pooled_separation :: "matrix \<Rightarrow> matrix list \<Rightarrow> real" where
  "pooled_separation embeddings_a siblings =
     1 - sum_list (map (\<lambda>b. np_sum (cosine_similarity (normalize_l2 embeddings_a) (normalize_l2 b))) siblings)
         / real (length embeddings_a * sum_list (map length siblings))"

text \<open>Three small subclusters of unequal sizes, to tell the two means apart.\<close>

definition example_small_a :: subcluster where
  "example_small_a =
     \<lparr>sub_id = 0,
      df = [\<lparr>issue_summary = ''p'', resolution = None\<rparr>,
            \<lparr>issue_summary = ''q'', resolution = None\<rparr>],
      embeddings = [[1, 0], [1, 0]]\<rparr>"

definition example_small_b :: subcluster where
  "example_small_b =
     \<lparr>sub_id = 1, df = [\<lparr>issue_summary = ''u'', resolution = None\<rparr>],
      embeddings = [[1, 0]]\<rparr>"

definition example_small_c :: subcluster where
  "example_small_c =
     \<lparr>sub_id = 2,
      df = [\<lparr>issue_summary = ''v'', resolution = None\<rparr>,
            \<lparr>issue_summary = ''w'', resolution = None\<rparr>],
      embeddings = [[0, 1], [0, 1]]\<rparr>"

definition example_small_record :: stats where
  "example_small_record =
     \<lparr>cluster = 3, subcluster_id = 0, summaries = [''p'', ''q''], resolutions = [],
      size_s = 2, cohesion = 1, separation = 1 / 2,
      stat_embeddings = [[1, 0], [1, 0]], normalized_size = None, score = None\<rparr>"

text \<open>
  One function that meets \<open>argsort_contract\<close>, for the worked examples: the ascending
  sort that leaves equal keys in index order.
\<close>

definition example_argsort :: argsort_fn where
  "example_argsort xs = sort_key (\<lambda>i. xs ! i) [0..<length xs]"

section \<open>Properties\<close>

subsection \<open>Min-max scaling and scoring\<close>

lemma minmax_length: "length (minmax_fit_transform xs) = length xs"
  by (simp add: minmax_fit_transform_def Let_def)

lemma minmax_nth:
  assumes "i < length xs"
  shows "minmax_fit_transform xs ! i =
           (if Max (set xs) = Min (set xs) then 0
            else (xs ! i - Min (set xs)) / (Max (set xs) - Min (set xs)))"
proof -
  have mem: "xs ! i \<in> set xs" using assms by simp
  have lo: "Min (set xs) \<le> xs ! i" using mem by simp
  have hi: "xs ! i \<le> Max (set xs)" using mem by simp
  show ?thesis
  proof (cases "Max (set xs) = Min (set xs)")
    case True
    then have "xs ! i = Min (set xs)" using lo hi by simp
    then show ?thesis using True assms by (simp add: minmax_fit_transform_def Let_def)
  next
    case False
    then show ?thesis using assms
      by (simp add: minmax_fit_transform_def Let_def field_simps)
  qed
qed

lemma crs_Inr:
  "acc \<noteq> [] \<Longrightarrow> \<exists>out. compute_ranked_scores acc a b c = Inr out"
  by (simp add: compute_ranked_scores_def Let_def)

lemma crs_length:
  "compute_ranked_scores acc a b c = Inr out \<Longrightarrow> length out = length acc"
  by (auto simp: compute_ranked_scores_def Let_def split: if_splits)

lemma crs_nth:
  assumes "compute_ranked_scores acc a b c = Inr out" and "i < length acc"
  shows "out ! i = (acc ! i)\<lparr>normalized_size := Some (minmax_fit_transform (map (\<lambda>s. real (size_s s)) acc) ! i),
           score := Some (a * minmax_fit_transform (map (\<lambda>s. real (size_s s)) acc) ! i
                          + b * cohesion (acc ! i) + c * separation (acc ! i))\<rparr>"
  using assms
  by (auto simp: compute_ranked_scores_def Let_def nth_enumerate_eq split: if_splits)

lemma crs_normalized:
  assumes "compute_ranked_scores acc a b c = Inr out" and "i < length acc"
  shows "normalized_size (out ! i) = Some (min_max_normalization (sizes_of acc) (real (size_s (acc ! i))))"
proof -
  have "i < length (map (\<lambda>s. real (size_s s)) acc)" using assms(2) by simp
  from minmax_nth [OF this] have
    "minmax_fit_transform (map (\<lambda>s. real (size_s s)) acc) ! i
       = min_max_normalization (sizes_of acc) (real (size_s (acc ! i)))"
    using assms(2) by (simp add: min_max_normalization_def sizes_of_def)
  moreover have "normalized_size (out ! i) = Some (minmax_fit_transform (map (\<lambda>s. real (size_s s)) acc) ! i)"
    by (simp add: crs_nth [OF assms])
  ultimately show ?thesis by simp
qed

lemma crs_score:
  assumes "compute_ranked_scores acc a b c = Inr out" and "i < length acc"
  shows "score (out ! i) = Some (a * min_max_normalization (sizes_of acc) (real (size_s (acc ! i)))
                                  + b * cohesion (acc ! i) + c * separation (acc ! i))"
proof -
  have "i < length (map (\<lambda>s. real (size_s s)) acc)" using assms(2) by simp
  from minmax_nth [OF this] have
    "minmax_fit_transform (map (\<lambda>s. real (size_s s)) acc) ! i
       = min_max_normalization (sizes_of acc) (real (size_s (acc ! i)))"
    using assms(2) by (simp add: min_max_normalization_def sizes_of_def)
  moreover have "score (out ! i) = Some (a * minmax_fit_transform (map (\<lambda>s. real (size_s s)) acc) ! i
                          + b * cohesion (acc ! i) + c * separation (acc ! i))"
    by (simp add: crs_nth [OF assms])
  ultimately show ?thesis by simp
qed

lemma crs_raw:
  assumes "compute_ranked_scores acc a b c = Inr out" and "i < length acc"
  shows "size_s (out ! i) = size_s (acc ! i)" "cohesion (out ! i) = cohesion (acc ! i)"
    "separation (out ! i) = separation (acc ! i)" "summaries (out ! i) = summaries (acc ! i)"
    "resolutions (out ! i) = resolutions (acc ! i)"
  by (simp_all add: crs_nth [OF assms])

subsection \<open>Sorting\<close>

lemma sorted_reverse_mset: "mset (sorted_reverse key xs) = mset xs"
  by (simp add: sorted_reverse_def)

lemma sorted_reverse_descending:
  "sorted_wrt (\<lambda>a b. a \<ge> b) (map key (sorted_reverse key xs))"
proof -
  have "sorted (map key (sort_key key (rev xs)))" by simp
  then have "sorted_wrt (\<lambda>a b. a \<ge> b) (rev (map key (sort_key key (rev xs))))"
    by (simp add: sorted_wrt_rev)
  then show ?thesis by (simp add: sorted_reverse_def rev_map)
qed

lemma sorted_reverse_stable:
  "filter (\<lambda>x. key x = v) (sorted_reverse key xs) = filter (\<lambda>x. key x = v) xs"
  by (simp add: sorted_reverse_def rev_filter [symmetric] sort_key_stable)

subsection \<open>Selection\<close>

lemma crs_scored:
  assumes "compute_ranked_scores acc a b c = Inr out" and "s \<in> set out"
  shows "score s \<noteq> None \<and> normalized_size s \<noteq> None"
proof -
  from assms(2) obtain i where i: "i < length out" "out ! i = s"
    by (auto simp: in_set_conv_nth)
  then have "i < length acc" using crs_length [OF assms(1)] by simp
  from crs_nth [OF assms(1) this] i show ?thesis by auto
qed

lemma select_top_unfold:
  assumes "compute_ranked_scores acc (4 / 10) (12 / 10) (2 / 10) = Inr updated"
  shows "select_top_subclusters acc =
           Inr (take NUM_FAQs (sorted_reverse (\<lambda>x. the (score x)) (size_filter updated)))"
proof -
  have "\<not> list_ex (\<lambda>s. score s = None) (size_filter updated)"
    using crs_scored [OF assms] by (auto simp: list_ex_iff size_filter_def)
  then show ?thesis using assms by (simp add: select_top_subclusters_def Let_def)
qed

lemma select_top_returns:
  "acc \<noteq> [] \<Longrightarrow> \<exists>out. select_top_subclusters acc = Inr out"
  using crs_Inr [of acc "4 / 10" "12 / 10" "2 / 10"] select_top_unfold by blast

lemma select_top_Inr_D:
  assumes "select_top_subclusters acc = Inr out"
  shows "\<exists>updated. compute_ranked_scores acc (4 / 10) (12 / 10) (2 / 10) = Inr updated \<and>
           out = take NUM_FAQs (sorted_reverse (\<lambda>x. the (score x)) (size_filter updated))"
proof (cases "compute_ranked_scores acc (4 / 10) (12 / 10) (2 / 10)")
  case (Inl e)
  then show ?thesis using assms by (simp add: select_top_subclusters_def)
next
  case (Inr updated)
  from select_top_unfold [OF this] assms Inr show ?thesis by simp
qed

subsection \<open>Choice of k\<close>

lemma candidate_scores_eq:
  assumes "\<forall>k\<in>set ks. fst (kmeans X k) \<noteq> []"
  shows "candidate_scores kmeans silhouette X n ks =
           Inr (map (\<lambda>k. (k, silhouette X (fst (kmeans X k))))
                 (filter (\<lambda>k. \<not> rejected (label_counts (fst (kmeans X k))) n) ks))"
  using assms by (induction ks) (simp_all add: Let_def)

lemma hd_sort_key_least:
  assumes "xs \<noteq> []"
  shows "hd (sort_key f xs) \<in> set xs \<and> (\<forall>y\<in>set xs. f (hd (sort_key f xs)) \<le> f y)"
proof -
  have "length (sort_key f xs) = length xs" by simp
  with assms obtain a as where s: "sort_key f xs = a # as"
    by (cases "sort_key f xs") auto
  have "sorted (map f (sort_key f xs))" by simp
  with s have le: "\<forall>y\<in>set as. f a \<le> f y" by simp
  have st: "set (a # as) = set xs" using s set_sort [of f xs] by simp
  have "a \<in> set xs" using st by auto
  moreover have "\<forall>y\<in>set xs. f a \<le> f y" using le st by auto
  ultimately show ?thesis using s by simp
qed

lemma set_label_counts: "set (label_counts labels) = count_list labels ` set labels"
  by (simp add: label_counts_def)

lemma rejected_iff_violates:
  assumes "labels \<noteq> []"
  shows "rejected (label_counts labels) n \<longleftrightarrow> violates_bounds labels n"
proof -
  let ?C = "count_list labels ` set labels"
  have fin: "finite ?C" by simp
  have ne: "?C \<noteq> {}" using assms by simp
  have small: "list_ex (\<lambda>c. c < 5) (label_counts labels) \<longleftrightarrow> (\<exists>l\<in>set labels. count_list labels l < 5)"
    by (auto simp: list_ex_iff set_label_counts)
  have big: "(if n = 0 then True else real (Max (set (label_counts labels))) / real n > 85 / 100)
               \<longleftrightarrow> (\<exists>l\<in>set labels. real (count_list labels l) > 85 / 100 * real n)"
  proof (cases "n = 0")
    case True
    from assms obtain l where l: "l \<in> set labels" by (cases labels) auto
    then have "count_list labels l \<noteq> 0" by (simp add: count_list_0_iff)
    then have "0 < count_list labels l" by simp
    with l True show ?thesis by auto
  next
    case False
    have mx: "Max ?C \<in> ?C" using fin ne by (rule Max_in)
    have "(85 / 100 * real n < real (Max ?C)) \<longleftrightarrow> (\<exists>c\<in>?C. 85 / 100 * real n < real c)"
    proof
      assume "85 / 100 * real n < real (Max ?C)"
      with mx show "\<exists>c\<in>?C. 85 / 100 * real n < real c" by blast
    next
      assume "\<exists>c\<in>?C. 85 / 100 * real n < real c"
      then obtain c where c: "c \<in> ?C" "85 / 100 * real n < real c" by blast
      have "c \<le> Max ?C" using fin c(1) by (rule Max_ge)
      then have "real c \<le> real (Max ?C)" by simp
      with c(2) show "85 / 100 * real n < real (Max ?C)" by linarith
    qed
    then show ?thesis using False by (simp add: set_label_counts field_simps)
  qed
  show ?thesis unfolding rejected_def violates_bounds_def small big ..
qed

lemma compute_best_k_cases:
  assumes "\<forall>j\<in>{2, 3, 4}. fst (kmeans X j) \<noteq> []"
  shows "\<exists>k. compute_best_k kmeans silhouette X n = Inr k \<and> k \<in> {1, 2, 3, 4} \<and>
           (k \<noteq> 1 \<longrightarrow>
              \<not> violates_bounds (fst (kmeans X k)) n \<and>
              (\<forall>j\<in>{2, 3, 4}. \<not> violates_bounds (fst (kmeans X j)) n \<longrightarrow>
                 silhouette X (fst (kmeans X j)) \<le> silhouette X (fst (kmeans X k)))) \<and>
           ((k = 1) = (\<forall>j\<in>{2, 3, 4}. violates_bounds (fst (kmeans X j)) n))"
proof -
  let ?ok = "\<lambda>j. \<not> rejected (label_counts (fst (kmeans X j))) n"
  let ?sc = "\<lambda>j. (j, silhouette X (fst (kmeans X j)))"
  let ?cs = "map ?sc (filter ?ok [2, 3, 4])"
  have rv: "rejected (label_counts (fst (kmeans X j))) n = violates_bounds (fst (kmeans X j)) n"
    if "j \<in> {2, 3, 4}" for j
    using assms that rejected_iff_violates by blast
  have cand: "candidate_scores kmeans silhouette X n [2, 3, 4] = Inr ?cs"
    using assms by (intro candidate_scores_eq) simp
  have set_cs: "set ?cs = ?sc ` {j \<in> {2, 3, 4}. ?ok j}" by auto
  show ?thesis
  proof (cases "?cs = []")
    case True
    then have k1: "compute_best_k kmeans silhouette X n = Inr 1"
      using cand by (simp add: compute_best_k_def)
    from True have "filter ?ok [2, 3, 4] = []" by simp
    then have "\<forall>j\<in>{2, 3, 4}. rejected (label_counts (fst (kmeans X j))) n"
      unfolding filter_empty_conv by simp
    then have "\<forall>j\<in>{2, 3, 4}. violates_bounds (fst (kmeans X j)) n"
      using rv by blast
    with k1 show ?thesis by (intro exI [of _ 1]) simp
  next
    case False
    let ?b = "hd (sort_key (\<lambda>x. - snd x) ?cs)"
    have kb: "compute_best_k kmeans silhouette X n = Inr (fst ?b)"
      using cand False by (simp add: compute_best_k_def)
    from hd_sort_key_least [OF False, of "\<lambda>x. - snd x"]
    have mem: "?b \<in> set ?cs" and least: "\<forall>y\<in>set ?cs. - snd ?b \<le> - snd y" by blast+
    from mem obtain k where k: "k \<in> {2, 3, 4}" "?ok k" "?b = ?sc k"
      unfolding set_cs by blast
    have fk: "fst ?b = k" and sk: "snd ?b = silhouette X (fst (kmeans X k))"
      using k(3) by simp_all
    have nv: "\<not> violates_bounds (fst (kmeans X k)) n" using k(1,2) rv by blast
    have best: "silhouette X (fst (kmeans X j)) \<le> silhouette X (fst (kmeans X k))"
      if "j \<in> {2, 3, 4}" "\<not> violates_bounds (fst (kmeans X j)) n" for j
    proof -
      have "?ok j" using that rv by blast
      then have "?sc j \<in> set ?cs" unfolding set_cs using that(1) by blast
      with least have "- snd ?b \<le> - snd (?sc j)" by blast
      then show ?thesis using sk by simp
    qed
    have k_ne: "k \<noteq> 1" using k(1) by auto
    have not_all: "\<not> (\<forall>j\<in>{2, 3, 4}. violates_bounds (fst (kmeans X j)) n)"
      using k(1) nv by blast
    have k_in: "k \<in> {1, 2, 3, 4}" using k(1) by auto
    have res: "compute_best_k kmeans silhouette X n = Inr k" using kb fk by simp
    have part: "k \<noteq> 1 \<longrightarrow>
              \<not> violates_bounds (fst (kmeans X k)) n \<and>
              (\<forall>j\<in>{2, 3, 4}. \<not> violates_bounds (fst (kmeans X j)) n \<longrightarrow>
                 silhouette X (fst (kmeans X j)) \<le> silhouette X (fst (kmeans X k)))"
      using nv best by blast
    have sent: "(k = 1) = (\<forall>j\<in>{2, 3, 4}. violates_bounds (fst (kmeans X j)) n)"
      using k_ne not_all by blast
    from res k_in part sent show ?thesis by (intro exI [of _ k] conjI)
  qed
qed

subsection \<open>Generation of the records\<close>

lemma sequence_err_Inr:
  "sequence_err rs = Inr xs \<Longrightarrow> length xs = length rs \<and> (\<forall>i<length rs. rs ! i = Inr (xs ! i))"
proof (induction rs arbitrary: xs)
  case Nil
  then show ?case by simp
next
  case (Cons r rs)
  from Cons.prems obtain y ys where r: "r = Inr y" and ys: "sequence_err rs = Inr ys"
    and xs: "xs = y # ys"
    by (auto split: sum.splits)
  from Cons.IH [OF ys] have "length ys = length rs" and "\<forall>i<length rs. rs ! i = Inr (ys ! i)"
    by simp_all
  then show ?case using r xs by (auto simp: nth_Cons split: nat.splits)
qed

lemma sequence_err_map_Inr:
  assumes "sequence_err (map f xs) = Inr ys"
  shows "length ys = length xs" and "\<And>i. i < length xs \<Longrightarrow> f (xs ! i) = Inr (ys ! i)"
  using sequence_err_Inr [OF assms] by simp_all

lemma length_mask_select:
  "length labels = length xs \<Longrightarrow> length (mask_select labels j xs) = count_list labels j"
  unfolding mask_select_def
  by (induction labels xs rule: list_induct2) simp_all

lemma sum_indicator_upt:
  "sum_list (map (\<lambda>j. if l = j then 1 else 0) [0..<k]) = (if l < k then 1 else (0::nat))"
  by (induction k) auto

lemma sum_count_list_upt:
  "\<forall>l\<in>set ls. l < k \<Longrightarrow> sum_list (map (count_list ls) [0..<k]) = length ls"
proof (induction ls)
  case Nil
  then show ?case by simp
next
  case (Cons l ls)
  have "sum_list (map (count_list (l # ls)) [0..<k])
          = sum_list (map (\<lambda>j. count_list ls j + (if l = j then 1 else 0)) [0..<k])"
    by (intro arg_cong [where f = sum_list] map_cong) auto
  also have "\<dots> = sum_list (map (count_list ls) [0..<k])
                    + sum_list (map (\<lambda>j. if l = j then 1 else 0) [0..<k])"
    by (simp add: sum_list_addf)
  also have "\<dots> = length ls + 1"
    using Cons.IH Cons.prems by (simp add: sum_indicator_upt del: count_list.simps)
  finally show ?case by (simp del: count_list.simps)
qed

lemma first_pass_length: "length (first_pass labels cdf X k) = k"
  by (simp add: first_pass_def)

lemma first_pass_nth:
  "j < k \<Longrightarrow> first_pass labels cdf X k ! j =
     \<lparr>sub_id = j, df = mask_select labels j cdf, embeddings = mask_select labels j X\<rparr>"
  by (simp add: first_pass_def)

lemma subcluster_stats_Inr_D:
  assumes "subcluster_stats argsort cid centroids subclusters sc = Inr r"
  shows "\<exists>coh seps tops.
           compute_cohesion (embeddings sc) = Inr coh \<and>
           sibling_separations subclusters sc = Inr seps \<and>
           sub_id sc < length centroids \<and>
           get_top_entries_by_centroid argsort (embeddings sc) (centroids ! sub_id sc) (df sc) = Inr tops \<and>
           r = \<lparr>cluster = cid, subcluster_id = sub_id sc,
                summaries = map issue_summary (df sc),
                resolutions = dropna (map resolution (df sc)),
                size_s = length (df sc), cohesion = coh,
                separation = (if seps \<noteq> [] then np_mean seps else 0),
                stat_embeddings = embeddings sc, normalized_size = None, score = None\<rparr>"
proof (cases "compute_cohesion (embeddings sc)")
  case (Inl e)
  then show ?thesis using assms by (simp add: subcluster_stats_def)
next
  case coh: (Inr coh)
  show ?thesis
  proof (cases "sibling_separations subclusters sc")
    case (Inl e)
    then show ?thesis using assms coh by (simp add: subcluster_stats_def)
  next
    case seps: (Inr seps)
    show ?thesis
    proof (cases "length centroids \<le> sub_id sc")
      case True
      then show ?thesis using assms coh seps by (simp add: subcluster_stats_def)
    next
      case False
      show ?thesis
      proof (cases "get_top_entries_by_centroid argsort (embeddings sc) (centroids ! sub_id sc) (df sc)")
        case (Inl e)
        then show ?thesis using assms coh seps False by (simp add: subcluster_stats_def)
      next
        case (Inr tops)
        then show ?thesis using assms coh seps False
          by (cases tops) (auto simp: subcluster_stats_def Let_def)
      qed
    qed
  qed
qed

lemma candidate_scores_labels:
  "candidate_scores kmeans silhouette X n ks = Inr cs \<Longrightarrow> \<forall>k\<in>set ks. fst (kmeans X k) \<noteq> []"
proof (induction ks arbitrary: cs)
  case Nil
  then show ?case by simp
next
  case (Cons k ks)
  from Cons.prems have ne: "fst (kmeans X k) \<noteq> []"
    by (auto simp: Let_def split: if_splits)
  from Cons.prems ne obtain rest where "candidate_scores kmeans silhouette X n ks = Inr rest"
    by (auto simp: Let_def split: sum.splits)
  from Cons.IH [OF this] ne show ?case by simp
qed

lemma compute_best_k_labels:
  assumes "compute_best_k kmeans silhouette X n = Inr k"
  shows "\<forall>j\<in>{2, 3, 4}. fst (kmeans X j) \<noteq> []"
proof (cases "candidate_scores kmeans silhouette X n [2, 3, 4]")
  case (Inl e)
  then show ?thesis using assms by (simp add: compute_best_k_def)
next
  case (Inr cs)
  from candidate_scores_labels [OF this] show ?thesis by simp
qed

lemma parent_cluster_stats_Inr_D:
  assumes "parent_cluster_stats argsort encode kmeans silhouette (cid, cdf) = Inr recs"
  shows "\<exists>k. compute_best_k kmeans silhouette (encode (map issue_summary cdf)) (length cdf) = Inr k \<and>
           (if k = 1 then recs = []
            else length (fst (kmeans (encode (map issue_summary cdf)) k)) = length cdf \<and>
                 length (fst (kmeans (encode (map issue_summary cdf)) k))
                   = length (encode (map issue_summary cdf)) \<and>
                 sequence_err
                   (map (subcluster_stats argsort cid (snd (kmeans (encode (map issue_summary cdf)) k))
                          (first_pass (fst (kmeans (encode (map issue_summary cdf)) k)) cdf
                             (encode (map issue_summary cdf)) k))
                        (first_pass (fst (kmeans (encode (map issue_summary cdf)) k)) cdf
                             (encode (map issue_summary cdf)) k)) = Inr recs)"
proof (cases "compute_best_k kmeans silhouette (encode (map issue_summary cdf)) (length cdf)")
  case (Inl e)
  then show ?thesis using assms by (simp add: parent_cluster_stats_def Let_def)
next
  case (Inr k)
  then show ?thesis using assms
    by (simp add: parent_cluster_stats_def subcluster_embeddings_kmeans_def Let_def
        split: if_splits)
qed

lemma parent_cluster_stats_partition:
  assumes run: "parent_cluster_stats argsort encode kmeans silhouette (cid, cdf) = Inr recs"
    and ne: "recs \<noteq> []"
    and range: "\<forall>k\<in>{2, 3, 4}. \<forall>l\<in>set (fst (kmeans (encode (map issue_summary cdf)) k)). l < k"
  shows "\<exists>k. compute_best_k kmeans silhouette (encode (map issue_summary cdf)) (length cdf) = Inr k \<and>
           2 \<le> k \<and> k \<le> 4 \<and> length recs = k \<and>
           length (fst (kmeans (encode (map issue_summary cdf)) k)) = length cdf \<and>
           (\<forall>i<length cdf. fst (kmeans (encode (map issue_summary cdf)) k) ! i < k) \<and>
           (\<forall>j<k. subcluster_id (recs ! j) = j \<and>
                   size_s (recs ! j) = count_list (fst (kmeans (encode (map issue_summary cdf)) k)) j) \<and>
           sum_list (map size_s recs) = length cdf"
proof -
  let ?X = "encode (map issue_summary cdf)"
  from parent_cluster_stats_Inr_D [OF run] obtain k
    where bk: "compute_best_k kmeans silhouette ?X (length cdf) = Inr k"
      and rest: "if k = 1 then recs = []
            else length (fst (kmeans ?X k)) = length cdf \<and>
                 length (fst (kmeans ?X k)) = length ?X \<and>
                 sequence_err
                   (map (subcluster_stats argsort cid (snd (kmeans ?X k)) (first_pass (fst (kmeans ?X k)) cdf ?X k))
                        (first_pass (fst (kmeans ?X k)) cdf ?X k)) = Inr recs"
    by blast
  let ?labels = "fst (kmeans ?X k)"
  let ?subs = "first_pass ?labels cdf ?X k"
  have k1: "k \<noteq> 1" using rest ne by auto
  from rest k1 have len: "length ?labels = length cdf"
    and seq: "sequence_err (map (subcluster_stats argsort cid (snd (kmeans ?X k)) ?subs) ?subs) = Inr recs"
    by simp_all
  from compute_best_k_cases [of kmeans ?X silhouette "length cdf", OF compute_best_k_labels [OF bk]] bk
  have "k \<in> {1, 2, 3, 4}" by auto
  with k1 have k_lo: "2 \<le> k" and k_hi: "k \<le> 4" and k_in: "k \<in> {2, 3, 4}" by auto
  from range k_in have in_range: "\<forall>l\<in>set (fst (kmeans ?X k)). l < k" by blast
  have lrecs: "length recs = k"
    using sequence_err_map_Inr(1) [OF seq] by (simp add: first_pass_length)
  have each: "subcluster_id (recs ! j) = j \<and> size_s (recs ! j) = count_list ?labels j" if j: "j < k" for j
  proof -
    have "j < length ?subs" using j by (simp add: first_pass_length)
    from sequence_err_map_Inr(2) [OF seq this]
    have "subcluster_stats argsort cid (snd (kmeans ?X k)) ?subs (?subs ! j) = Inr (recs ! j)" .
    from subcluster_stats_Inr_D [OF this]
    have "subcluster_id (recs ! j) = sub_id (?subs ! j)" "size_s (recs ! j) = length (df (?subs ! j))"
      by auto
    then show ?thesis using j len by (simp add: first_pass_nth length_mask_select)
  qed
  have "map size_s recs = map (count_list ?labels) [0..<k]"
    using lrecs each by (simp add: list_eq_iff_nth_eq)
  then have "sum_list (map size_s recs) = sum_list (map (count_list ?labels) [0..<k])" by simp
  also have "\<dots> = length ?labels" using in_range by (rule sum_count_list_upt)
  finally have total: "sum_list (map size_s recs) = length cdf" using len by simp
  have lab: "\<forall>i<length cdf. ?labels ! i < k" using in_range len by simp
  from bk k_lo k_hi lrecs len lab each total show ?thesis
    by (intro exI [of _ k] conjI allI impI) simp_all
qed

lemma compute_separation_Inr_D:
  assumes "compute_separation a b = Inr s"
  shows "s = 1 - np_sum (cosine_similarity (normalize_l2 a) (normalize_l2 b)) / real (length a * length b)"
proof (cases "a = [] \<or> b = []")
  case True
  then show ?thesis using assms by (simp add: compute_separation_def)
next
  case False
  have "length (normalize_l2 a) = length a" "length (normalize_l2 b) = length b"
    by (simp_all add: normalize_l2_def)
  then show ?thesis using assms False
    by (simp add: compute_separation_def Let_def del: of_nat_mult)
qed

lemma sibling_separations_Inr_D:
  assumes "sibling_separations subclusters sc = Inr seps"
  shows "length seps = length (filter (\<lambda>other. sub_id other \<noteq> sub_id sc) subclusters)"
    and "\<And>j. j < length (filter (\<lambda>other. sub_id other \<noteq> sub_id sc) subclusters) \<Longrightarrow>
           compute_separation (embeddings sc)
             (embeddings (filter (\<lambda>other. sub_id other \<noteq> sub_id sc) subclusters ! j)) = Inr (seps ! j)"
  using sequence_err_map_Inr [OF assms [unfolded sibling_separations_def]] by simp_all

lemma separation_of_record:
  assumes "subcluster_stats argsort cid centroids subclusters sc = Inr r"
  shows "\<exists>seps.
           length seps = length (filter (\<lambda>other. sub_id other \<noteq> sub_id sc) subclusters) \<and>
           (\<forall>j<length seps.
              compute_separation (embeddings sc)
                (embeddings (filter (\<lambda>other. sub_id other \<noteq> sub_id sc) subclusters ! j))
                = Inr (seps ! j) \<and>
              seps ! j =
                1 - np_sum (cosine_similarity (normalize_l2 (embeddings sc))
                             (normalize_l2 (embeddings
                                (filter (\<lambda>other. sub_id other \<noteq> sub_id sc) subclusters ! j))))
                    / real (length (embeddings sc) *
                            length (embeddings
                              (filter (\<lambda>other. sub_id other \<noteq> sub_id sc) subclusters ! j)))) \<and>
           separation r =
             (if filter (\<lambda>other. sub_id other \<noteq> sub_id sc) subclusters = [] then 0
              else sum_list seps /
                   real (length (filter (\<lambda>other. sub_id other \<noteq> sub_id sc) subclusters)))"
proof -
  let ?sib = "filter (\<lambda>other. sub_id other \<noteq> sub_id sc) subclusters"
  from subcluster_stats_Inr_D [OF assms] obtain seps
    where s: "sibling_separations subclusters sc = Inr seps"
      and r: "separation r = (if seps \<noteq> [] then np_mean seps else 0)"
    by auto
  have len: "length seps = length ?sib" by (rule sibling_separations_Inr_D(1) [OF s])
  have each: "compute_separation (embeddings sc) (embeddings (?sib ! j)) = Inr (seps ! j)"
    if "j < length ?sib" for j
    using that by (rule sibling_separations_Inr_D(2) [OF s])
  have form: "seps ! j = 1 - np_sum (cosine_similarity (normalize_l2 (embeddings sc))
                             (normalize_l2 (embeddings (?sib ! j))))
                    / real (length (embeddings sc) * length (embeddings (?sib ! j)))"
    if "j < length ?sib" for j
    using compute_separation_Inr_D [OF each [OF that]] .
  have empty: "(seps = []) = (?sib = [])" using len by (metis length_0_conv)
  have sep: "separation r = (if ?sib = [] then 0 else sum_list seps / real (length ?sib))"
    using r empty len by (simp add: np_mean_def)
  from len each form sep show ?thesis
    by (intro exI [of _ seps] conjI allI impI) simp_all
qed

subsection \<open>The ranking under the contract of \<open>argsort\<close>\<close>

lemma get_top_entries_Inr:
  assumes "embs \<noteq> []" and "length embs \<le> length frame"
  shows "\<exists>tops. get_top_entries_by_centroid argsort embs centroid frame = Inr tops"
  using assms by (simp add: get_top_entries_by_centroid_def Let_def)

lemma example_argsort_contract: "argsort_contract example_argsort xs"
  by (simp add: argsort_contract_def example_argsort_def)

lemma argsort_contract_length:
  assumes "argsort_contract argsort xs"
  shows "length (argsort xs) = length xs"
proof -
  have "mset (argsort xs) = mset [0..<length xs]" using assms by (simp add: argsort_contract_def)
  then have "length (argsort xs) = length [0..<length xs]" by (rule mset_eq_length)
  then show ?thesis by simp
qed

lemma argsort_contract_set:
  assumes "argsort_contract argsort xs"
  shows "set (argsort xs) = {0..<length xs}"
proof -
  have "mset (argsort xs) = mset [0..<length xs]" using assms by (simp add: argsort_contract_def)
  then have "set (argsort xs) = set [0..<length xs]" by (rule mset_eq_setD)
  then show ?thesis by simp
qed

lemma top_indices_permutation:
  assumes "argsort_contract argsort sims"
  shows "mset (top_indices argsort sims) = mset [0..<length sims]"
  using assms by (simp add: top_indices_def argsort_contract_def)

lemma top_indices_desc_sorted:
  assumes "argsort_contract argsort sims"
  shows "sorted_wrt (\<lambda>a b. a \<ge> b) (map (\<lambda>i. sims ! i) (top_indices argsort sims))"
proof -
  have "sorted (map (\<lambda>i. sims ! i) (argsort sims))"
    using assms by (simp add: argsort_contract_def)
  then have "sorted_wrt (\<lambda>a b. a \<ge> b) (rev (map (\<lambda>i. sims ! i) (argsort sims)))"
    by (simp add: sorted_wrt_rev)
  then show ?thesis by (simp add: top_indices_def rev_map)
qed

text \<open>Where the values are pairwise distinct the contract leaves one order only.\<close>

lemma argsort_contract_unique:
  assumes c: "argsort_contract argsort xs" and d: "distinct xs"
  shows "argsort xs = sort_key (\<lambda>i. xs ! i) [0..<length xs]"
proof -
  let ?f = "\<lambda>i. xs ! i"
  let ?s = "sort_key ?f [0..<length xs]"
  have set_a: "set (argsort xs) = {0..<length xs}" by (rule argsort_contract_set [OF c])
  have set_s: "set ?s = {0..<length xs}" by simp
  have inj: "inj_on ?f {0..<length xs}"
    using d by (auto simp: inj_on_def nth_eq_iff_index_eq)
  have dist_a: "distinct (argsort xs)"
  proof -
    have "mset (argsort xs) = mset [0..<length xs]" using c by (simp add: argsort_contract_def)
    then have "distinct (argsort xs) = distinct [0..<length xs]" by (rule mset_eq_imp_distinct_iff)
    then show ?thesis by simp
  qed
  have dist_s: "distinct ?s" by simp
  have "inj_on ?f (set (argsort xs) \<union> set ?s)" using inj set_a set_s by simp
  moreover have "sorted (map ?f (argsort xs))" using c by (simp add: argsort_contract_def)
  moreover have "distinct (map ?f (argsort xs))"
    using dist_a inj set_a by (simp add: distinct_map)
  moreover have "sorted (map ?f ?s)" by simp
  moreover have "distinct (map ?f ?s)" using dist_s inj set_s by (simp add: distinct_map)
  moreover have "set (argsort xs) = set ?s" using set_a set_s by simp
  ultimately show ?thesis by (rule map_sorted_distinct_set_unique)
qed

subsection \<open>The worked parent cluster\<close>

lemma sqrt_9: "sqrt 9 = 3"
  using real_sqrt_abs [of 3] by simp

lemma example_first_pass:
  "first_pass [0, 0, 0, 0, 0, 1, 1, 1, 1, 1] example_tickets example_embeddings 2
     = [example_subcluster_a, example_subcluster_b]"
  by (simp add: first_pass_def mask_select_def example_tickets_def example_embeddings_def
      example_subcluster_a_def example_subcluster_b_def upt_rec)

lemma example_normalize_a:
  "normalize_l2 (take 5 example_embeddings) = [[1, 0], [0, 1], [0, 1], [0, 1], [0, 1]]"
  by (simp add: example_embeddings_def normalize_l2_def normalize_row_def row_norm_def dot_def sqrt_9)

lemma example_normalize_b:
  "normalize_l2 (drop 5 example_embeddings) = [[0, -1], [0, -1], [0, -1], [0, -1], [0, -1]]"
  by (simp add: example_embeddings_def normalize_l2_def normalize_row_def row_norm_def dot_def)

lemma example_normalize_unit:
  "normalize_l2 [[1, 0], [0, 1], [0, 1], [0, 1], [0, 1]] = [[1, 0], [0, 1], [0, 1], [0, 1], [0, 1]]"
  "normalize_l2 [[0, -1], [0, -1], [0, -1], [0, -1], [0, -1]] = [[0, -1], [0, -1], [0, -1], [0, -1], [0, -1]]"
  "normalize_l2 [[3 / 5, 4 / 5]] = [[3 / 5, 4 / 5]]"
  by (simp_all add: normalize_l2_def normalize_row_def row_norm_def dot_def)

lemma example_cohesion_a: "compute_cohesion (take 5 example_embeddings) = Inr (3 / 5)"
proof -
  have ne: "take 5 example_embeddings \<noteq> []" by (simp add: example_embeddings_def)
  show ?thesis
    unfolding compute_cohesion_def Let_def cosine_similarity_def example_normalize_a
      example_normalize_unit
    using ne by (simp add: dot_def np_sum_def np_trace_def upt_rec)
qed

lemma example_cohesion_b: "compute_cohesion (drop 5 example_embeddings) = Inr 1"
proof -
  have ne: "drop 5 example_embeddings \<noteq> []" by (simp add: example_embeddings_def)
  show ?thesis
    unfolding compute_cohesion_def Let_def cosine_similarity_def example_normalize_b
      example_normalize_unit
    using ne by (simp add: dot_def np_sum_def np_trace_def upt_rec)
qed

lemma example_separation_ab:
  "compute_separation (take 5 example_embeddings) (drop 5 example_embeddings) = Inr (9 / 5)"
proof -
  have ne: "take 5 example_embeddings \<noteq> []" "drop 5 example_embeddings \<noteq> []"
    by (simp_all add: example_embeddings_def)
  show ?thesis
    unfolding compute_separation_def Let_def cosine_similarity_def example_normalize_a
      example_normalize_b example_normalize_unit
    using ne by (simp add: dot_def np_sum_def)
qed

lemma example_separation_ba:
  "compute_separation (drop 5 example_embeddings) (take 5 example_embeddings) = Inr (9 / 5)"
proof -
  have ne: "take 5 example_embeddings \<noteq> []" "drop 5 example_embeddings \<noteq> []"
    by (simp_all add: example_embeddings_def)
  show ?thesis
    unfolding compute_separation_def Let_def cosine_similarity_def example_normalize_a
      example_normalize_b example_normalize_unit
    using ne by (simp add: dot_def np_sum_def)
qed

lemma example_similarities_a:
  "centroid_similarities (take 5 example_embeddings) [3 / 5, 4 / 5] = [3 / 5, 4 / 5, 4 / 5, 4 / 5, 4 / 5]"
  unfolding centroid_similarities_def cosine_similarity_def Let_def example_normalize_a
    example_normalize_unit
  by (simp add: dot_def)

lemma example_top_indices_a: "top_indices example_argsort [3 / 5, 4 / 5, 4 / 5, 4 / 5, 4 / 5] = [4, 3, 2, 1, 0]"
  by (simp add: top_indices_def example_argsort_def upt_rec)

lemma example_top_entries_a:
  "get_top_entries_by_centroid example_argsort (take 5 example_embeddings) [3 / 5, 4 / 5] (take 5 example_tickets)
     = Inr ([''a4'', ''a3'', ''a2'', ''a1'', ''a0''], [''r4'', ''r3'', ''r2'', ''r0''])"
proof -
  have ne: "take 5 example_embeddings \<noteq> []" "length (take 5 example_embeddings) = 5"
    by (simp_all add: example_embeddings_def)
  show ?thesis
    unfolding get_top_entries_by_centroid_def Let_def example_similarities_a example_top_indices_a
    using ne by (simp add: example_tickets_def)
qed

lemma example_best_k:
  "compute_best_k example_kmeans example_silhouette example_embeddings 10 = Inr 2"
  by (simp add: compute_best_k_def example_kmeans_def example_silhouette_def rejected_def
      label_counts_def)

lemma example_normalize_centroid_b: "normalize_l2 [[0, -2]] = [[0, -1]]" "normalize_l2 [[0, -1]] = [[0, -1]]"
  by (simp_all add: normalize_l2_def normalize_row_def row_norm_def dot_def)

lemma example_similarities_b:
  "centroid_similarities (drop 5 example_embeddings) [0, -2] = [1, 1, 1, 1, 1]"
  unfolding centroid_similarities_def cosine_similarity_def Let_def example_normalize_b
    example_normalize_unit example_normalize_centroid_b
  by (simp add: dot_def)

lemma example_top_indices_b: "top_indices example_argsort [1, 1, 1, 1, 1] = [4, 3, 2, 1, 0]"
  by (simp add: top_indices_def example_argsort_def upt_rec)

lemma example_top_entries_b:
  "get_top_entries_by_centroid example_argsort (drop 5 example_embeddings) [0, -2] (drop 5 example_tickets)
     = Inr ([''b4'', ''b3'', ''b2'', ''b1'', ''b0''], [''s4'', ''s3'', ''s1'', ''s0''])"
proof -
  have ne: "drop 5 example_embeddings \<noteq> []" "length (drop 5 example_embeddings) = 5"
    by (simp_all add: example_embeddings_def)
  show ?thesis
    unfolding get_top_entries_by_centroid_def Let_def example_similarities_b example_top_indices_b
    using ne by (simp add: example_tickets_def)
qed

lemma example_length: "length example_tickets = 10" "length example_embeddings = 10"
  by (simp_all add: example_tickets_def example_embeddings_def)

lemma example_fit:
  "fst (example_kmeans example_embeddings 2) = [0, 0, 0, 0, 0, 1, 1, 1, 1, 1]"
  "snd (example_kmeans example_embeddings 2) = [[3 / 5, 4 / 5], [0, -2]]"
  "length (fst (example_kmeans example_embeddings 2)) = 10"
  by (simp_all add: example_kmeans_def)

lemma example_fit_first_pass:
  "first_pass (fst (example_kmeans example_embeddings 2)) example_tickets example_embeddings 2
     = [example_subcluster_a, example_subcluster_b]"
  by (simp only: example_fit(1) example_first_pass)

lemma example_fields:
  "sub_id example_subcluster_a = 0" "df example_subcluster_a = take 5 example_tickets"
  "embeddings example_subcluster_a = take 5 example_embeddings"
  "sub_id example_subcluster_b = 1" "df example_subcluster_b = drop 5 example_tickets"
  "embeddings example_subcluster_b = drop 5 example_embeddings"
  by (simp_all add: example_subcluster_a_def example_subcluster_b_def)

lemma example_texts:
  "map issue_summary (take 5 example_tickets) = [''a0'', ''a1'', ''a2'', ''a3'', ''a4'']"
  "dropna (map resolution (take 5 example_tickets)) = [''r0'', ''r2'', ''r3'', ''r4'']"
  "length (take 5 example_tickets) = 5"
  "map issue_summary (drop 5 example_tickets) = [''b0'', ''b1'', ''b2'', ''b3'', ''b4'']"
  "dropna (map resolution (drop 5 example_tickets)) = [''s0'', ''s1'', ''s3'', ''s4'']"
  "length (drop 5 example_tickets) = 5"
  by (simp_all add: example_tickets_def)

lemma example_siblings:
  "sibling_separations [example_subcluster_a, example_subcluster_b] example_subcluster_a = Inr [9 / 5]"
  "sibling_separations [example_subcluster_a, example_subcluster_b] example_subcluster_b = Inr [9 / 5]"
  by (simp_all add: sibling_separations_def example_fields example_separation_ab
      example_separation_ba)

lemma example_stats_a:
  "subcluster_stats argsort 7 [[3 / 5, 4 / 5], [0, -2]] [example_subcluster_a, example_subcluster_b]
     example_subcluster_a = Inr example_record_a"
proof -
  have "take 5 example_embeddings \<noteq> []"
    and "length (take 5 example_embeddings) \<le> length (take 5 example_tickets)"
    by (simp_all add: example_embeddings_def example_tickets_def)
  from get_top_entries_Inr [OF this] obtain tops
    where "get_top_entries_by_centroid argsort (take 5 example_embeddings) [3 / 5, 4 / 5]
             (take 5 example_tickets) = Inr tops"
    by blast
  then show ?thesis
    by (cases tops)
      (simp add: subcluster_stats_def Let_def example_fields example_siblings example_cohesion_a
        example_texts example_record_a_def np_mean_def example_length)
qed

lemma example_stats_b:
  "subcluster_stats argsort 7 [[3 / 5, 4 / 5], [0, -2]] [example_subcluster_a, example_subcluster_b]
     example_subcluster_b = Inr example_record_b"
proof -
  have "drop 5 example_embeddings \<noteq> []"
    and "length (drop 5 example_embeddings) \<le> length (drop 5 example_tickets)"
    by (simp_all add: example_embeddings_def example_tickets_def)
  from get_top_entries_Inr [OF this] obtain tops
    where "get_top_entries_by_centroid argsort (drop 5 example_embeddings) [0, -2]
             (drop 5 example_tickets) = Inr tops"
    by blast
  then show ?thesis
    by (cases tops)
      (simp add: subcluster_stats_def Let_def example_fields example_siblings example_cohesion_b
        example_texts example_record_b_def np_mean_def example_length)
qed

lemma example_parent:
  "parent_cluster_stats argsort example_encode example_kmeans example_silhouette (7, example_tickets)
     = Inr [example_record_a, example_record_b]"
  by (simp add: parent_cluster_stats_def example_encode_def example_length example_best_k
      subcluster_embeddings_kmeans_def Let_def example_fit(2,3) example_fit_first_pass
      example_stats_a example_stats_b)

lemma example_generate:
  "generate_subclusters argsort example_encode example_kmeans example_silhouette [(7, example_tickets)]
     = Inr [example_record_a, example_record_b]"
  by (simp add: example_parent)

subsection \<open>Three small subclusters\<close>

lemma example_small_fields:
  "sub_id example_small_a = 0" "sub_id example_small_b = 1" "sub_id example_small_c = 2"
  "embeddings example_small_a = [[1, 0], [1, 0]]" "embeddings example_small_b = [[1, 0]]"
  "embeddings example_small_c = [[0, 1], [0, 1]]"
  "map issue_summary (df example_small_a) = [''p'', ''q'']"
  "dropna (map resolution (df example_small_a)) = []"
  "length (df example_small_a) = 2"
  by (simp_all add: example_small_a_def example_small_b_def example_small_c_def)

lemma example_small_normalize:
  "normalize_l2 [[1, 0], [1, 0]] = [[1, 0], [1, 0]]" "normalize_l2 [[1, 0]] = [[1, 0]]"
  "normalize_l2 [[0, 1], [0, 1]] = [[0, 1], [0, 1]]"
  by (simp_all add: normalize_l2_def normalize_row_def row_norm_def dot_def)

lemma example_small_separations:
  "compute_separation [[1, 0], [1, 0]] [[1, 0]] = Inr 0"
  "compute_separation [[1, 0], [1, 0]] [[0, 1], [0, 1]] = Inr 1"
  unfolding compute_separation_def Let_def cosine_similarity_def example_small_normalize
  by (simp_all add: dot_def np_sum_def)

lemma example_small_cohesion: "compute_cohesion [[1, 0], [1, 0]] = Inr 1"
  unfolding compute_cohesion_def Let_def cosine_similarity_def example_small_normalize
  by (simp add: dot_def np_sum_def np_trace_def upt_rec)

lemma example_small_run:
  "subcluster_stats argsort 3 [[1, 0], [1, 0], [0, 1]]
     [example_small_a, example_small_b, example_small_c] example_small_a
     = Inr example_small_record"
proof -
  have "[[1, 0], [1 :: real, 0]] \<noteq> []"
    and "length [[1, 0], [1 :: real, 0]] \<le> length (df example_small_a)"
    by (simp_all add: example_small_a_def)
  from get_top_entries_Inr [OF this] obtain tops
    where "get_top_entries_by_centroid argsort [[1, 0], [1, 0]] [1, 0] (df example_small_a) = Inr tops"
    by blast
  then show ?thesis
    by (cases tops)
      (simp add: subcluster_stats_def Let_def sibling_separations_def example_small_fields
        example_small_separations example_small_cohesion np_mean_def example_small_record_def)
qed

lemma example_small_pooled:
  "pooled_separation [[1, 0], [1, 0]] [[[1, 0]], [[0, 1], [0, 1]]] = 2 / 3"
  by (simp add: pooled_separation_def cosine_similarity_def Let_def example_small_normalize
      dot_def np_sum_def)

text \<open>
  In the first subcluster the member \<open>0\<close> has the smallest similarity and no equal, so
  every ascending order of the indices starts with it.
\<close>

lemma example_least_first:
  assumes c: "argsort_contract argsort [3 / 5, 4 / 5, 4 / 5, 4 / 5, 4 / 5]"
  shows "hd (argsort [3 / 5, 4 / 5, 4 / 5, 4 / 5, 4 / 5]) = 0"
proof -
  let ?sims = "[3 / 5, 4 / 5, 4 / 5, 4 / 5, 4 / 5 :: real]"
  have len: "length (argsort ?sims) = 5" using argsort_contract_length [OF c] by simp
  then obtain x rest where xr: "argsort ?sims = x # rest"
    by (cases "argsort ?sims") auto
  have "set (argsort ?sims) = {0..<length ?sims}" by (rule argsort_contract_set [OF c])
  moreover have "length ?sims = 5" by simp
  ultimately have st: "set (x # rest) = {0..<5}" unfolding xr by (simp only:)
  have "sorted (map (\<lambda>i. ?sims ! i) (x # rest))"
    using c xr by (simp add: argsort_contract_def)
  then have le: "\<forall>y\<in>set rest. ?sims ! x \<le> ?sims ! y" by simp
  have others: "?sims ! i = 4 / 5" if "i < 5" "i \<noteq> 0" for i
  proof -
    from that have "i = 1 \<or> i = 2 \<or> i = 3 \<or> i = 4" by linarith
    then show ?thesis by auto
  qed
  have "x = 0"
  proof (rule ccontr)
    assume x0: "x \<noteq> 0"
    have "x < 5" using st by auto
    then have vx: "?sims ! x = 4 / 5" using x0 by (rule others)
    have "0 \<in> set (x # rest)" unfolding st by simp
    then have "0 \<in> set rest" using x0 by simp
    with le have "?sims ! x \<le> ?sims ! 0" by blast
    then show False unfolding vx by simp
  qed
  then show ?thesis using xr by simp
qed


section \<open>The claims\<close>

subsection \<open>Worked example of global scoring and selection\<close>

lemma example_run:
  "compute_ranked_scores example_accumulator (4 / 10) (12 / 10) (2 / 10) = Inr example_updated"
  by (simp add: compute_ranked_scores_def minmax_fit_transform_def example_scored_def
      example_stats_def example_accumulator_def example_updated_def Let_def)

lemma example_filter:
  "size_filter example_updated =
     [example_scored 10 (1 / 2) 0 (1 / 4) (7 / 10),
      example_scored 10 (1 / 2) (1 / 2) (1 / 4) (8 / 10),
      example_scored 10 (5 / 12) (1 / 2) (1 / 4) (7 / 10)]"
  by (simp add: size_filter_def get_normalized_size_def example_scored_def example_stats_def
      example_updated_def MIN_SIZE_def MAX_SIZE_def EPSILON_def)

lemma example_select:
  "select_top_subclusters example_accumulator =
     Inr [example_scored 10 (1 / 2) (1 / 2) (1 / 4) (8 / 10),
          example_scored 10 (1 / 2) 0 (1 / 4) (7 / 10),
          example_scored 10 (5 / 12) (1 / 2) (1 / 4) (7 / 10)]"
  unfolding select_top_unfold [OF example_run] example_filter
  by (simp add: sorted_reverse_def NUM_FAQs_def example_scored_def example_stats_def)

subsection \<open>C2: order of the centroid ranking\<close>

text \<open>
  C2, as stated, asks that members of equal similarity keep their original index order.
  \<open>similarities.argsort()[::-1]\<close> reverses an ascending order and \<open>argsort\<close> promises
  nothing about equal keys: with the \<open>argsort\<close> that leaves equal keys in index order,
  two members of equal similarity come out with the higher index first.
\<close>

theorem top_indices_tie_counterexample:
  "argsort_contract example_argsort [1 / 2, 1 / 2] \<and>
   top_indices example_argsort [1 / 2, 1 / 2] = [1, 0] \<and>
   top_indices example_argsort [1 / 2, 1 / 2] \<noteq> [0, 1]"
  by (simp add: top_indices_def argsort_contract_def example_argsort_def upt_rec)

text \<open>
  C2 (amended): for every \<open>argsort\<close> that meets numpy's contract on the similarities,
  the ranking is a permutation of the member indices along which the similarities
  descend; no order is promised among members of equal similarity; and the
  similarities \<open>[0.9, 0.3, 0.6]\<close> give the order \<open>[0, 2, 1]\<close>.
\<close>

theorem top_indices_descending:
  assumes "argsort_contract argsort sims"
  shows "mset (top_indices argsort sims) = mset [0..<length sims] \<and>
         sorted_wrt (\<lambda>a b. a \<ge> b) (map (\<lambda>i. sims ! i) (top_indices argsort sims)) \<and>
         (sims = [9 / 10, 3 / 10, 6 / 10] \<longrightarrow> top_indices argsort sims = [0, 2, 1])"
proof (intro conjI impI)
  show "mset (top_indices argsort sims) = mset [0..<length sims]"
    by (rule top_indices_permutation [OF assms])
  show "sorted_wrt (\<lambda>a b. a \<ge> b) (map (\<lambda>i. sims ! i) (top_indices argsort sims))"
    by (rule top_indices_desc_sorted [OF assms])
next
  assume eq: "sims = [9 / 10, 3 / 10, 6 / 10]"
  then have "distinct sims" by simp
  from argsort_contract_unique [OF assms this]
  have "argsort sims = sort_key (\<lambda>i. sims ! i) [0..<length sims]" .
  also have "\<dots> = [1, 2, 0]" unfolding eq by (simp add: upt_rec)
  finally show "top_indices argsort sims = [0, 2, 1]" by (simp add: top_indices_def)
qed

theorem top_indices_descending_witness:
  "argsort_contract example_argsort [9 / 10, 3 / 10, 6 / 10] \<and>
   top_indices example_argsort [9 / 10, 3 / 10, 6 / 10] = [0, 2, 1]"
proof -
  have c: "argsort_contract example_argsort [9 / 10, 3 / 10, 6 / 10]"
    by (rule example_argsort_contract)
  from top_indices_descending [OF c]
  have "top_indices example_argsort [9 / 10, 3 / 10, 6 / 10] = [0, 2, 1]"
    by blast
  with c show ?thesis by (intro conjI)
qed

subsection \<open>C4: the size filter\<close>

text \<open>
  C4: the filter of global selection keeps a scored record exactly when its
  \<open>normalized_size\<close> lies strictly between \<open>MIN_SIZE + EPSILON\<close> and
  \<open>MAX_SIZE - EPSILON\<close>, with \<open>MIN_SIZE = 0.05\<close>, \<open>MAX_SIZE = 0.80\<close> and
  \<open>EPSILON = 0.001\<close>. A record at exactly \<open>MIN_SIZE + EPSILON\<close> is dropped, one at
  \<open>MIN_SIZE + EPSILON + d\<close> for a positive \<open>d\<close> below the upper bound is kept. The
  records returned are drawn from the filtered ones, and are all of them when no more
  than \<open>NUM_FAQs\<close> pass.
\<close>

theorem size_filter_open_interval:
  assumes "compute_ranked_scores acc (4 / 10) (12 / 10) (2 / 10) = Inr updated"
  shows "MIN_SIZE = 5 / 100 \<and> MAX_SIZE = 80 / 100 \<and> EPSILON = 1 / 1000 \<and>
         (\<forall>s. s \<in> set (size_filter updated) \<longleftrightarrow>
                s \<in> set updated \<and> (\<exists>v. normalized_size s = Some v \<and>
                   MIN_SIZE + EPSILON < v \<and> v < MAX_SIZE - EPSILON)) \<and>
         (\<forall>s. normalized_size s = Some (MIN_SIZE + EPSILON) \<longrightarrow> s \<notin> set (size_filter updated)) \<and>
         (\<forall>s d. s \<in> set updated \<and> 0 < d \<and> MIN_SIZE + EPSILON + d < MAX_SIZE - EPSILON \<and>
                 normalized_size s = Some (MIN_SIZE + EPSILON + d) \<longrightarrow> s \<in> set (size_filter updated)) \<and>
         (\<exists>out. select_top_subclusters acc = Inr out \<and> set out \<subseteq> set (size_filter updated) \<and>
                (length (size_filter updated) \<le> NUM_FAQs \<longrightarrow> set out = set (size_filter updated)))"
proof (intro conjI allI)
  show "MIN_SIZE = 5 / 100" "MAX_SIZE = 80 / 100" "EPSILON = 1 / 1000"
    by (simp_all add: MIN_SIZE_def MAX_SIZE_def EPSILON_def)
next
  fix s
  show "s \<in> set (size_filter updated) \<longleftrightarrow>
          s \<in> set updated \<and> (\<exists>v. normalized_size s = Some v \<and>
             MIN_SIZE + EPSILON < v \<and> v < MAX_SIZE - EPSILON)"
    using crs_scored [OF assms, of s]
    by (auto simp: size_filter_def get_normalized_size_def)
next
  fix s
  show "normalized_size s = Some (MIN_SIZE + EPSILON) \<longrightarrow> s \<notin> set (size_filter updated)"
    by (simp add: size_filter_def get_normalized_size_def)
next
  fix s d
  show "s \<in> set updated \<and> 0 < d \<and> MIN_SIZE + EPSILON + d < MAX_SIZE - EPSILON \<and>
          normalized_size s = Some (MIN_SIZE + EPSILON + d) \<longrightarrow> s \<in> set (size_filter updated)"
    by (simp add: size_filter_def get_normalized_size_def)
next
  let ?ranked = "sorted_reverse (\<lambda>x. the (score x)) (size_filter updated)"
  have sel: "select_top_subclusters acc = Inr (take NUM_FAQs ?ranked)"
    by (rule select_top_unfold [OF assms])
  have set_ranked: "set ?ranked = set (size_filter updated)"
    using sorted_reverse_mset [of "\<lambda>x. the (score x)" "size_filter updated"] by (rule mset_eq_setD)
  have len_ranked: "length ?ranked = length (size_filter updated)"
    using sorted_reverse_mset [of "\<lambda>x. the (score x)" "size_filter updated"] by (rule mset_eq_length)
  have sub: "set (take NUM_FAQs ?ranked) \<subseteq> set (size_filter updated)"
    using set_take_subset [of NUM_FAQs ?ranked] set_ranked by simp
  have full: "length (size_filter updated) \<le> NUM_FAQs \<longrightarrow>
                set (take NUM_FAQs ?ranked) = set (size_filter updated)"
    using set_ranked len_ranked by simp
  show "\<exists>out. select_top_subclusters acc = Inr out \<and> set out \<subseteq> set (size_filter updated) \<and>
          (length (size_filter updated) \<le> NUM_FAQs \<longrightarrow> set out = set (size_filter updated))"
    using sel sub full by blast
qed


theorem size_filter_open_interval_witness:
  "compute_ranked_scores example_accumulator (4 / 10) (12 / 10) (2 / 10) = Inr example_updated \<and>
   example_scored 10 (1 / 2) 0 (1 / 4) (7 / 10) \<in> set (size_filter example_updated) \<and>
   example_scored 5 (1 / 2) (1 / 2) 0 (7 / 10) \<notin> set (size_filter example_updated) \<and>
   example_scored 25 1 1 1 (18 / 10) \<notin> set (size_filter example_updated)"
proof -
  from size_filter_open_interval [OF example_run]
  have iff: "\<And>s. s \<in> set (size_filter example_updated) \<longleftrightarrow>
                s \<in> set example_updated \<and> (\<exists>v. normalized_size s = Some v \<and>
                   MIN_SIZE + EPSILON < v \<and> v < MAX_SIZE - EPSILON)"
    by blast
  have "example_scored 10 (1 / 2) 0 (1 / 4) (7 / 10) \<in> set (size_filter example_updated)"
    unfolding iff
  proof (intro conjI exI [of _ "1 / 4"])
    show "example_scored 10 (1 / 2) 0 (1 / 4) (7 / 10) \<in> set example_updated"
      by (simp add: example_updated_def)
    show "normalized_size (example_scored 10 (1 / 2) 0 (1 / 4) (7 / 10)) = Some (1 / 4)"
      by (simp add: example_scored_def)
    show "MIN_SIZE + EPSILON < 1 / 4" "1 / 4 < MAX_SIZE - EPSILON"
      by (simp_all add: MIN_SIZE_def MAX_SIZE_def EPSILON_def)
  qed
  moreover have "example_scored 5 (1 / 2) (1 / 2) 0 (7 / 10) \<notin> set (size_filter example_updated)"
    unfolding iff
    by (simp add: example_scored_def MIN_SIZE_def MAX_SIZE_def EPSILON_def)
  moreover have "example_scored 25 1 1 1 (18 / 10) \<notin> set (size_filter example_updated)"
    unfolding iff
    by (simp add: example_scored_def MIN_SIZE_def MAX_SIZE_def EPSILON_def)
  ultimately show ?thesis using example_run by simp
qed

subsection \<open>C5: stable descending sort and the output cap\<close>

text \<open>
  C5: the records that pass the filter are sorted by score, highest first; records of
  equal score keep the order they had in the accumulator; the result is the first
  \<open>NUM_FAQs = 20\<close> of them, and all of them (nothing added) when fewer pass.
\<close>

theorem select_top_sorted_stable_capped:
  assumes "select_top_subclusters acc = Inr out"
  shows "\<exists>updated. compute_ranked_scores acc (4 / 10) (12 / 10) (2 / 10) = Inr updated \<and>
           (let survivors = size_filter updated;
                ranked = sorted_reverse (\<lambda>x. the (score x)) survivors
            in NUM_FAQs = 20 \<and>
               out = take NUM_FAQs ranked \<and>
               mset ranked = mset survivors \<and>
               sorted_wrt (\<lambda>a b. a \<ge> b) (map (\<lambda>x. the (score x)) ranked) \<and>
               (\<forall>v. filter (\<lambda>x. the (score x) = v) ranked = filter (\<lambda>x. the (score x) = v) survivors) \<and>
               length out = min NUM_FAQs (length survivors) \<and>
               (length survivors \<le> NUM_FAQs \<longrightarrow> out = ranked))"
proof -
  from select_top_Inr_D [OF assms] obtain updated
    where u: "compute_ranked_scores acc (4 / 10) (12 / 10) (2 / 10) = Inr updated"
      and o: "out = take NUM_FAQs (sorted_reverse (\<lambda>x. the (score x)) (size_filter updated))"
    by blast
  let ?ranked = "sorted_reverse (\<lambda>x. the (score x)) (size_filter updated)"
  have len: "length ?ranked = length (size_filter updated)"
    using sorted_reverse_mset [of "\<lambda>x. the (score x)" "size_filter updated"] by (rule mset_eq_length)
  have "NUM_FAQs = 20" by (simp add: NUM_FAQs_def)
  moreover have "mset ?ranked = mset (size_filter updated)" by (rule sorted_reverse_mset)
  moreover have "sorted_wrt (\<lambda>a b. a \<ge> b) (map (\<lambda>x. the (score x)) ?ranked)"
    by (rule sorted_reverse_descending)
  moreover have "\<forall>v. filter (\<lambda>x. the (score x) = v) ?ranked = filter (\<lambda>x. the (score x) = v) (size_filter updated)"
    by (simp add: sorted_reverse_stable)
  moreover have "length out = min NUM_FAQs (length (size_filter updated))"
    using o len by simp
  moreover have "length (size_filter updated) \<le> NUM_FAQs \<longrightarrow> out = ?ranked"
    using o len by simp
  ultimately show ?thesis using u o by (simp add: Let_def)
qed

theorem select_top_sorted_stable_capped_witness:
  "select_top_subclusters example_accumulator =
     Inr [example_scored 10 (1 / 2) (1 / 2) (1 / 4) (8 / 10),
          example_scored 10 (1 / 2) 0 (1 / 4) (7 / 10),
          example_scored 10 (5 / 12) (1 / 2) (1 / 4) (7 / 10)] \<and>
   (\<exists>updated. compute_ranked_scores example_accumulator (4 / 10) (12 / 10) (2 / 10) = Inr updated \<and>
      length [example_scored 10 (1 / 2) (1 / 2) (1 / 4) (8 / 10),
          example_scored 10 (1 / 2) 0 (1 / 4) (7 / 10),
          example_scored 10 (5 / 12) (1 / 2) (1 / 4) (7 / 10)] = min NUM_FAQs (length (size_filter updated)))"
proof -
  from select_top_sorted_stable_capped [OF example_select]
  obtain updated where
    "compute_ranked_scores example_accumulator (4 / 10) (12 / 10) (2 / 10) = Inr updated"
    "length [example_scored 10 (1 / 2) (1 / 2) (1 / 4) (8 / 10),
          example_scored 10 (1 / 2) 0 (1 / 4) (7 / 10),
          example_scored 10 (5 / 12) (1 / 2) (1 / 4) (7 / 10)] = min NUM_FAQs (length (size_filter updated))"
    unfolding Let_def by blast
  with example_select show ?thesis by blast
qed

subsection \<open>C6: the composite score\<close>

text \<open>
  C6: for a non-empty accumulator every record receives
  \<open>score = size_weight * normalized_size + cohesion_weight * cohesion +
  separation_weight * separation\<close>, where \<open>normalized_size\<close> is the min-max
  normalisation of the record's size over the whole accumulator and cohesion and
  separation are the record's own, unchanged values; \<open>select_top_subclusters\<close> scores
  with the weights \<open>0.4\<close>, \<open>1.2\<close> and \<open>0.2\<close>.
\<close>

theorem composite_score_formula:
  assumes "compute_ranked_scores acc size_weight cohesion_weight separation_weight = Inr out"
  shows "length out = length acc \<and>
         (\<forall>i<length acc.
            normalized_size (out ! i) =
              Some (min_max_normalization (sizes_of acc) (real (size_s (acc ! i)))) \<and>
            score (out ! i) =
              Some (size_weight * min_max_normalization (sizes_of acc) (real (size_s (acc ! i))) +
                    cohesion_weight * cohesion (acc ! i) +
                    separation_weight * separation (acc ! i)) \<and>
            size_s (out ! i) = size_s (acc ! i) \<and>
            cohesion (out ! i) = cohesion (acc ! i) \<and>
            separation (out ! i) = separation (acc ! i)) \<and>
         (\<exists>res. select_top_subclusters acc = Inr res \<and>
            (\<forall>s\<in>set res. \<exists>ns. normalized_size s = Some ns \<and>
               score s = Some (4 / 10 * ns + 12 / 10 * cohesion s + 2 / 10 * separation s)))"
proof (intro conjI allI impI)
  show "length out = length acc" by (rule crs_length [OF assms])
next
  fix i assume i: "i < length acc"
  show "normalized_size (out ! i) =
              Some (min_max_normalization (sizes_of acc) (real (size_s (acc ! i))))"
    by (rule crs_normalized [OF assms i])
  show "score (out ! i) =
              Some (size_weight * min_max_normalization (sizes_of acc) (real (size_s (acc ! i))) +
                    cohesion_weight * cohesion (acc ! i) +
                    separation_weight * separation (acc ! i))"
    by (rule crs_score [OF assms i])
  show "size_s (out ! i) = size_s (acc ! i)" "cohesion (out ! i) = cohesion (acc ! i)"
    "separation (out ! i) = separation (acc ! i)"
    by (rule crs_raw [OF assms i])+
next
  have ne: "acc \<noteq> []" using assms by (cases "acc = []") (simp_all add: compute_ranked_scores_def)
  from crs_Inr [OF ne] obtain updated
    where u: "compute_ranked_scores acc (4 / 10) (12 / 10) (2 / 10) = Inr updated" by blast
  let ?res = "take NUM_FAQs (sorted_reverse (\<lambda>x. the (score x)) (size_filter updated))"
  have sel: "select_top_subclusters acc = Inr ?res" by (rule select_top_unfold [OF u])
  have "\<exists>ns. normalized_size s = Some ns \<and>
               score s = Some (4 / 10 * ns + 12 / 10 * cohesion s + 2 / 10 * separation s)"
    if "s \<in> set ?res" for s
  proof -
    have "s \<in> set (sorted_reverse (\<lambda>x. the (score x)) (size_filter updated))"
      using that by (rule in_set_takeD)
    then have "s \<in> set (size_filter updated)"
      by (simp add: mset_eq_setD [OF sorted_reverse_mset])
    then have "s \<in> set updated" by (simp add: size_filter_def)
    then obtain i where i: "i < length updated" "updated ! i = s"
      by (auto simp: in_set_conv_nth)
    then have ia: "i < length acc" using crs_length [OF u] by simp
    have "normalized_size s = Some (min_max_normalization (sizes_of acc) (real (size_s (acc ! i))))"
      using crs_normalized [OF u ia] i(2) by simp
    moreover have "score s = Some (4 / 10 * min_max_normalization (sizes_of acc) (real (size_s (acc ! i)))
                                  + 12 / 10 * cohesion s + 2 / 10 * separation s)"
      using crs_score [OF u ia] crs_raw(2,3) [OF u ia] i(2) by simp
    ultimately show ?thesis by blast
  qed
  then have "\<forall>s\<in>set ?res. \<exists>ns. normalized_size s = Some ns \<and>
               score s = Some (4 / 10 * ns + 12 / 10 * cohesion s + 2 / 10 * separation s)" ..
  with sel show "\<exists>res. select_top_subclusters acc = Inr res \<and>
            (\<forall>s\<in>set res. \<exists>ns. normalized_size s = Some ns \<and>
               score s = Some (4 / 10 * ns + 12 / 10 * cohesion s + 2 / 10 * separation s))"
    by (intro exI [of _ ?res] conjI)
qed


theorem composite_score_formula_witness:
  "compute_ranked_scores example_accumulator (4 / 10) (12 / 10) (2 / 10) = Inr example_updated \<and>
   length example_updated = length example_accumulator \<and>
   score (example_updated ! 3) =
     Some (4 / 10 * min_max_normalization (sizes_of example_accumulator) 10 + 12 / 10 * (5 / 12) +
           2 / 10 * (1 / 2)) \<and>
   min_max_normalization (sizes_of example_accumulator) 10 = 1 / 4"
proof -
  from composite_score_formula [OF example_run]
  have len: "length example_updated = length example_accumulator"
    and all: "\<forall>i<length example_accumulator.
            score (example_updated ! i) =
              Some (4 / 10 * min_max_normalization (sizes_of example_accumulator)
                      (real (size_s (example_accumulator ! i))) +
                    12 / 10 * cohesion (example_accumulator ! i) +
                    2 / 10 * separation (example_accumulator ! i))"
    by simp_all
  have "(3::nat) < length example_accumulator" by (simp add: example_accumulator_def)
  with all have "score (example_updated ! 3) =
              Some (4 / 10 * min_max_normalization (sizes_of example_accumulator)
                      (real (size_s (example_accumulator ! 3))) +
                    12 / 10 * cohesion (example_accumulator ! 3) +
                    2 / 10 * separation (example_accumulator ! 3))" by blast
  then have "score (example_updated ! 3) =
     Some (4 / 10 * min_max_normalization (sizes_of example_accumulator) 10 + 12 / 10 * (5 / 12) +
           2 / 10 * (1 / 2))"
    by (simp add: example_accumulator_def example_stats_def)
  moreover have "min_max_normalization (sizes_of example_accumulator) 10 = 1 / 4"
    by (simp add: min_max_normalization_def sizes_of_def example_accumulator_def example_stats_def)
  ultimately show ?thesis using len example_run by simp
qed

subsection \<open>C10: an accumulator of equal sizes selects nothing\<close>

text \<open>
  C10: when all records of a non-empty accumulator have the same size,
  \<open>compute_ranked_scores\<close> gives every record \<open>normalized_size = 0\<close>, whatever the
  weights, and \<open>select_top_subclusters\<close> returns the empty list.
\<close>

theorem degenerate_sizes_select_nothing:
  assumes "acc \<noteq> []" and "\<forall>s\<in>set acc. size_s s = n"
  shows "(\<exists>updated. compute_ranked_scores acc a b c = Inr updated \<and>
            length updated = length acc \<and>
            (\<forall>s\<in>set updated. normalized_size s = Some 0)) \<and>
         select_top_subclusters acc = Inr []"
proof -
  have sizes: "set (map (\<lambda>s. real (size_s s)) acc) = {real n}"
    using assms by (cases acc) auto
  have zero: "\<forall>s\<in>set updated. normalized_size s = Some 0"
    if u: "compute_ranked_scores acc a' b' c' = Inr updated" for a' b' c' updated
  proof
    fix s assume "s \<in> set updated"
    then obtain i where i: "i < length updated" "updated ! i = s"
      by (auto simp: in_set_conv_nth)
    then have ia: "i < length acc" using crs_length [OF u] by simp
    from crs_normalized [OF u ia] i(2) sizes show "normalized_size s = Some 0"
      by (simp add: min_max_normalization_def sizes_of_def)
  qed
  from crs_Inr [OF assms(1)] obtain updated
    where u: "compute_ranked_scores acc a b c = Inr updated" by blast
  from crs_Inr [OF assms(1)] obtain upd
    where d: "compute_ranked_scores acc (4 / 10) (12 / 10) (2 / 10) = Inr upd" by blast
  have "size_filter upd = []"
    using zero [OF d]
    by (auto simp: size_filter_def get_normalized_size_def MIN_SIZE_def EPSILON_def filter_empty_conv)
  then have "select_top_subclusters acc = Inr []"
    using select_top_unfold [OF d] by (simp add: sorted_reverse_def)
  with u zero [OF u] crs_length [OF u] show ?thesis by blast
qed

theorem degenerate_sizes_select_nothing_witness:
  "(\<exists>updated.
      compute_ranked_scores [example_stats 20 (1 / 2) (1 / 2), example_stats 20 (3 / 4) (1 / 4)]
        (4 / 10) (12 / 10) (2 / 10) = Inr updated \<and>
      length updated = length [example_stats 20 (1 / 2) (1 / 2), example_stats 20 (3 / 4) (1 / 4)]) \<and>
   select_top_subclusters [example_stats 20 (1 / 2) (1 / 2), example_stats 20 (3 / 4) (1 / 4)] = Inr []"
proof -
  have ne: "[example_stats 20 (1 / 2) (1 / 2), example_stats 20 (3 / 4) (1 / 4)] \<noteq> []" by simp
  have eq: "\<forall>s\<in>set [example_stats 20 (1 / 2) (1 / 2), example_stats 20 (3 / 4) (1 / 4)]. size_s s = 20"
    by (simp add: example_stats_def)
  from degenerate_sizes_select_nothing [OF ne eq, of "4 / 10" "12 / 10" "2 / 10"]
  show ?thesis by blast
qed

subsection \<open>C3: the chosen number of subclusters\<close>

text \<open>
  C3: whenever the clustering returns labels for the three candidates, \<open>compute_best_k\<close>
  returns some \<open>k\<close> among \<open>1, 2, 3, 4\<close>. A returned \<open>k\<close> other than \<open>1\<close> has a partition
  with no label class under five members and no label class above 85 percent of the
  total, and its silhouette score is the highest among the candidates whose partitions
  respect both bounds. The result is \<open>1\<close> exactly when the partitions of all three
  candidates violate a bound.
\<close>

theorem compute_best_k_respects_bounds:
  assumes "\<forall>j\<in>{2, 3, 4}. fst (kmeans X j) \<noteq> []"
  shows "\<exists>k. compute_best_k kmeans silhouette X n = Inr k \<and> k \<in> {1, 2, 3, 4} \<and>
           (k \<noteq> 1 \<longrightarrow>
              \<not> violates_bounds (fst (kmeans X k)) n \<and>
              (\<forall>j\<in>{2, 3, 4}. \<not> violates_bounds (fst (kmeans X j)) n \<longrightarrow>
                 silhouette X (fst (kmeans X j)) \<le> silhouette X (fst (kmeans X k)))) \<and>
           ((k = 1) = (\<forall>j\<in>{2, 3, 4}. violates_bounds (fst (kmeans X j)) n))"
  using assms by (rule compute_best_k_cases)

theorem compute_best_k_respects_bounds_witness:
  "compute_best_k example_kmeans example_silhouette example_embeddings 10 = Inr 2 \<and>
   \<not> violates_bounds (fst (example_kmeans example_embeddings 2)) 10 \<and>
   violates_bounds (fst (example_kmeans example_embeddings 3)) 10"
proof -
  have labels: "\<forall>j\<in>{2, 3, 4}. fst (example_kmeans example_embeddings j) \<noteq> []"
    by (simp add: example_kmeans_def)
  from compute_best_k_respects_bounds
         [of example_kmeans example_embeddings example_silhouette 10, OF labels]
  obtain k where k: "compute_best_k example_kmeans example_silhouette example_embeddings 10 = Inr k"
    and ok: "k \<noteq> 1 \<longrightarrow> \<not> violates_bounds (fst (example_kmeans example_embeddings k)) 10"
    by blast
  from k example_best_k have "k = 2" by simp
  with ok have "\<not> violates_bounds (fst (example_kmeans example_embeddings 2)) 10" by simp
  moreover have "violates_bounds (fst (example_kmeans example_embeddings 3)) 10"
    by (simp add: violates_bounds_def example_kmeans_def)
  ultimately show ?thesis using example_best_k by simp
qed

subsection \<open>C9: the subclusters partition the parent cluster\<close>

text \<open>
  C9: let a parent cluster be partitioned, that is, let its pass through
  \<open>generate_subclusters\<close> append records, and let the clustering assign labels below
  \<open>k\<close>. Then the chosen \<open>k\<close> is between 2 and 4, there are \<open>k\<close> records, every ticket
  has one label below \<open>k\<close>, the record of subcluster \<open>j\<close> has as its size the number of
  tickets labelled \<open>j\<close>, and the sizes add up to the number of tickets of the parent
  cluster.
\<close>

theorem partition_complete:
  assumes run: "parent_cluster_stats argsort encode kmeans silhouette (cid, cdf) = Inr recs"
    and ne: "recs \<noteq> []"
    and range: "\<forall>k\<in>{2, 3, 4}. \<forall>l\<in>set (fst (kmeans (encode (map issue_summary cdf)) k)). l < k"
  shows "\<exists>k. compute_best_k kmeans silhouette (encode (map issue_summary cdf)) (length cdf) = Inr k \<and>
           2 \<le> k \<and> k \<le> 4 \<and> length recs = k \<and>
           length (fst (kmeans (encode (map issue_summary cdf)) k)) = length cdf \<and>
           (\<forall>i<length cdf. fst (kmeans (encode (map issue_summary cdf)) k) ! i < k) \<and>
           (\<forall>j<k. subcluster_id (recs ! j) = j \<and>
                   size_s (recs ! j) = count_list (fst (kmeans (encode (map issue_summary cdf)) k)) j) \<and>
           sum_list (map size_s recs) = length cdf"
  using run ne range by (rule parent_cluster_stats_partition)

theorem partition_complete_witness:
  "parent_cluster_stats example_argsort example_encode example_kmeans example_silhouette (7, example_tickets)
     = Inr [example_record_a, example_record_b] \<and>
   sum_list (map size_s [example_record_a, example_record_b]) = length example_tickets \<and>
   length example_tickets = 10"
proof -
  have ne: "[example_record_a, example_record_b] \<noteq> []" by simp
  have range: "\<forall>k\<in>{2, 3, 4}.
      \<forall>l\<in>set (fst (example_kmeans (example_encode (map issue_summary example_tickets)) k)). l < k"
    by (simp add: example_kmeans_def)
  from partition_complete [OF example_parent ne range]
  have "sum_list (map size_s [example_record_a, example_record_b]) = length example_tickets"
    by blast
  then show ?thesis using example_parent example_length(1) by simp
qed

subsection \<open>C7: separation is the mean over the siblings\<close>

text \<open>
  C7: the separation stored for a subcluster is the arithmetic mean of its separation
  scores against the other subclusters of the same parent, one score for each sibling,
  where the score against one sibling is \<open>1\<close> minus the mean of the cross
  cosine-similarity matrix of the two; it is \<open>0\<close> when there is no sibling. (It is not
  the mean over all cross pairs pooled: the witness shows a subcluster whose stored
  separation is \<open>1/2\<close> where the pooled mean is \<open>2/3\<close>.)
\<close>

theorem separation_mean_over_siblings:
  assumes "subcluster_stats argsort cid centroids subclusters sc = Inr r"
  shows "\<exists>seps.
           length seps = length (filter (\<lambda>other. sub_id other \<noteq> sub_id sc) subclusters) \<and>
           (\<forall>j<length seps.
              compute_separation (embeddings sc)
                (embeddings (filter (\<lambda>other. sub_id other \<noteq> sub_id sc) subclusters ! j))
                = Inr (seps ! j) \<and>
              seps ! j =
                1 - np_sum (cosine_similarity (normalize_l2 (embeddings sc))
                             (normalize_l2 (embeddings
                                (filter (\<lambda>other. sub_id other \<noteq> sub_id sc) subclusters ! j))))
                    / real (length (embeddings sc) *
                            length (embeddings
                              (filter (\<lambda>other. sub_id other \<noteq> sub_id sc) subclusters ! j)))) \<and>
           separation r =
             (if filter (\<lambda>other. sub_id other \<noteq> sub_id sc) subclusters = [] then 0
              else sum_list seps /
                   real (length (filter (\<lambda>other. sub_id other \<noteq> sub_id sc) subclusters)))"
  using assms by (rule separation_of_record)

theorem separation_mean_over_siblings_witness:
  "subcluster_stats example_argsort 3 [[1, 0], [1, 0], [0, 1]] [example_small_a, example_small_b, example_small_c]
     example_small_a = Inr example_small_record \<and>
   (\<exists>seps. length seps = 2 \<and> separation example_small_record = sum_list seps / 2) \<and>
   separation example_small_record = 1 / 2 \<and>
   pooled_separation [[1, 0], [1, 0]] [[[1, 0]], [[0, 1], [0, 1]]] = 2 / 3"
proof -
  have sib: "filter (\<lambda>other. sub_id other \<noteq> sub_id example_small_a)
               [example_small_a, example_small_b, example_small_c]
             = [example_small_b, example_small_c]"
    by (simp add: example_small_fields)
  from separation_mean_over_siblings [OF example_small_run]
  obtain seps where "length seps = length [example_small_b, example_small_c]"
    and "separation example_small_record =
           (if [example_small_b, example_small_c] = [] then 0
            else sum_list seps / real (length [example_small_b, example_small_c]))"
    unfolding sib by blast
  then have "length seps = 2 \<and> separation example_small_record = sum_list seps / 2"
    by simp
  then have "\<exists>seps. length seps = 2 \<and> separation example_small_record = sum_list seps / 2" ..
  moreover have "separation example_small_record = 1 / 2"
    by (simp add: example_small_record_def)
  ultimately show ?thesis using example_small_run example_small_pooled by simp
qed

subsection \<open>C1: the texts stored in a record\<close>

text \<open>
  C1 asks that the summaries and resolutions stored in a record be the lists ranked by
  \<open>get_top_entries_by_centroid\<close>. The source computes the ranked lists and stores the
  texts in the order of the data frame instead, so the records do not depend on the
  ranking at all. On the worked parent cluster the first record holds \<open>a0, ..., a4\<close>.
  The member \<open>a0\<close> is the least similar to the centroid: every \<open>argsort\<close> that meets
  the contract ranks it last, and the one that leaves equal keys in index order ranks
  the members \<open>a4, ..., a0\<close>.
\<close>

theorem stored_texts_not_centroid_ranked:
  "generate_subclusters argsort example_encode example_kmeans example_silhouette
       [(7, example_tickets)]
     = Inr [example_record_a, example_record_b] \<and>
   summaries example_record_a = [''a0'', ''a1'', ''a2'', ''a3'', ''a4''] \<and>
   resolutions example_record_a = [''r0'', ''r2'', ''r3'', ''r4''] \<and>
   centroid_similarities (stat_embeddings example_record_a)
       (snd (example_kmeans example_embeddings 2) ! 0)
     = [3 / 5, 4 / 5, 4 / 5, 4 / 5, 4 / 5] \<and>
   get_top_entries_by_centroid example_argsort (stat_embeddings example_record_a)
       (snd (example_kmeans example_embeddings 2) ! 0) (take 5 example_tickets)
     = Inr ([''a4'', ''a3'', ''a2'', ''a1'', ''a0''], [''r4'', ''r3'', ''r2'', ''r0'']) \<and>
   (argsort_contract argsort [3 / 5, 4 / 5, 4 / 5, 4 / 5, 4 / 5] \<longrightarrow>
      (\<exists>tops. get_top_entries_by_centroid argsort (stat_embeddings example_record_a)
                 (snd (example_kmeans example_embeddings 2) ! 0) (take 5 example_tickets)
               = Inr tops \<and>
              last (fst tops) = ''a0'' \<and>
              fst tops \<noteq> summaries example_record_a))"
proof -
  have emb: "stat_embeddings example_record_a = take 5 example_embeddings"
    by (simp add: example_record_a_def)
  have cen: "snd (example_kmeans example_embeddings 2) ! 0 = [3 / 5, 4 / 5]"
    by (simp add: example_fit(2))
  have sums: "summaries example_record_a = [''a0'', ''a1'', ''a2'', ''a3'', ''a4'']"
    and res: "resolutions example_record_a = [''r0'', ''r2'', ''r3'', ''r4'']"
    by (simp_all add: example_record_a_def)
  have ranked: "\<exists>tops. get_top_entries_by_centroid argsort (take 5 example_embeddings)
                 [3 / 5, 4 / 5] (take 5 example_tickets) = Inr tops \<and>
              last (fst tops) = ''a0'' \<and>
              fst tops \<noteq> [''a0'', ''a1'', ''a2'', ''a3'', ''a4'']"
    if c: "argsort_contract argsort [3 / 5, 4 / 5, 4 / 5, 4 / 5, 4 / 5]"
  proof -
    let ?sims = "[3 / 5, 4 / 5, 4 / 5, 4 / 5, 4 / 5 :: real]"
    let ?name = "\<lambda>i. issue_summary (take 5 example_tickets ! i)"
    have ne: "take 5 example_embeddings \<noteq> []" "length (take 5 example_embeddings) = 5"
      "length (take 5 example_tickets) = 5"
      by (simp_all add: example_embeddings_def example_tickets_def)
    have top: "get_top_entries_by_centroid argsort (take 5 example_embeddings) [3 / 5, 4 / 5]
                 (take 5 example_tickets)
               = Inr (map ?name (rev (argsort ?sims)),
                      dropna (map (\<lambda>i. resolution (take 5 example_tickets ! i))
                                  (rev (argsort ?sims))))"
      unfolding get_top_entries_by_centroid_def Let_def example_similarities_a top_indices_def
      using ne by simp
    have hd0: "hd (argsort ?sims) = 0" by (rule example_least_first [OF c])
    have "length (argsort ?sims) = 5" using argsort_contract_length [OF c] by simp
    then have nonempty: "argsort ?sims \<noteq> []" by auto
    have "last (map ?name (rev (argsort ?sims))) = ?name (hd (argsort ?sims))"
      using nonempty by (simp add: last_map last_rev)
    also have "\<dots> = ''a0''" unfolding hd0 by (simp add: example_tickets_def)
    finally have l: "last (map ?name (rev (argsort ?sims))) = ''a0''" .
    have "map ?name (rev (argsort ?sims)) \<noteq> [''a0'', ''a1'', ''a2'', ''a3'', ''a4'']"
    proof
      assume "map ?name (rev (argsort ?sims)) = [''a0'', ''a1'', ''a2'', ''a3'', ''a4'']"
      then have "last (map ?name (rev (argsort ?sims))) = ''a4''" by simp
      with l show False by simp
    qed
    with top l show ?thesis by simp
  qed
  have g: "generate_subclusters argsort example_encode example_kmeans example_silhouette
               [(7, example_tickets)]
             = Inr [example_record_a, example_record_b]"
    by (rule example_generate)
  have r: "argsort_contract argsort [3 / 5, 4 / 5, 4 / 5, 4 / 5, 4 / 5] \<longrightarrow>
      (\<exists>tops. get_top_entries_by_centroid argsort (take 5 example_embeddings)
                 [3 / 5, 4 / 5] (take 5 example_tickets)
               = Inr tops \<and>
              last (fst tops) = ''a0'' \<and>
              fst tops \<noteq> summaries example_record_a)"
  proof
    assume "argsort_contract argsort [3 / 5, 4 / 5, 4 / 5, 4 / 5, 4 / 5]"
    from ranked [OF this] show "\<exists>tops. get_top_entries_by_centroid argsort
                 (take 5 example_embeddings) [3 / 5, 4 / 5] (take 5 example_tickets)
               = Inr tops \<and>
              last (fst tops) = ''a0'' \<and>
              fst tops \<noteq> summaries example_record_a"
      unfolding sums .
  qed
  show ?thesis
    unfolding emb cen
    using g sums res example_similarities_a example_top_entries_a r
    by (intro conjI)
qed

theorem stored_texts_not_centroid_ranked_witness:
  "argsort_contract example_argsort [3 / 5, 4 / 5, 4 / 5, 4 / 5, 4 / 5] \<and>
   generate_subclusters example_argsort example_encode example_kmeans example_silhouette
       [(7, example_tickets)]
     = Inr [example_record_a, example_record_b] \<and>
   summaries example_record_a = [''a0'', ''a1'', ''a2'', ''a3'', ''a4''] \<and>
   (\<exists>tops. get_top_entries_by_centroid example_argsort (stat_embeddings example_record_a)
              (snd (example_kmeans example_embeddings 2) ! 0) (take 5 example_tickets)
            = Inr tops \<and>
           last (fst tops) = ''a0'' \<and>
           fst tops \<noteq> summaries example_record_a)"
proof -
  have c: "argsort_contract example_argsort [3 / 5, 4 / 5, 4 / 5, 4 / 5, 4 / 5]"
    by (rule example_argsort_contract)
  from stored_texts_not_centroid_ranked [of example_argsort] c show ?thesis by blast
qed

end
